theory Spec2Isabelle
  imports Main "HOL-Library.Multiset" "HOL-Library.Sublist"
begin

section \<open>Python values, exceptions and the outside world\<close>

text \<open>
  The program is one Python script, \<^verbatim>\<open>1million.py\<close>: it connects to PostgreSQL with
  psycopg2, creates the table \<^verbatim>\<open>customers\<close>, reads \<^verbatim>\<open>customers.csv\<close> with
  \<^verbatim>\<open>csv.DictReader\<close>, sends the rows whose names start with A and F to the table in
  batches, commits, and prints a report.

  A row of \<^verbatim>\<open>csv.DictReader\<close> is a dict from column labels to cells. A cell is a
  \<^verbatim>\<open>str\<close>, or \<^verbatim>\<open>None\<close> where a data line has fewer fields than the header
  (DictReader's \<^verbatim>\<open>restval\<close>). A label that the header does not have is not a key of
  the dict at all. (A line with more fields than the header adds the key \<^verbatim>\<open>None\<close>, which
  the script never reads; blank lines yield no row.)
\<close>

type_synonym cell = "string option"

type_synonym row = "string \<rightharpoonup> cell"

text \<open>\<^verbatim>\<open>row.get(key)\<close> and \<^verbatim>\<open>row.get(key, default)\<close>: the default stands in for a
  missing key only, never for a key whose value is \<^verbatim>\<open>None\<close>.\<close>

definition row_get :: "row \<Rightarrow> string \<Rightarrow> cell" where
  "row_get r k = (case r k of None \<Rightarrow> None | Some v \<Rightarrow> v)"

definition row_get_default :: "row \<Rightarrow> string \<Rightarrow> string \<Rightarrow> cell" where
  "row_get_default r k d = (case r k of None \<Rightarrow> Some d | Some v \<Rightarrow> v)"

text \<open>The exceptions the script tells apart (\<^verbatim>\<open>FileNotFoundError\<close>, psycopg2's
  \<^verbatim>\<open>OperationalError\<close>) and the other subclasses of \<^verbatim>\<open>Exception\<close> that its calls
  raise; each carries its message, which \<^verbatim>\<open>{e}\<close> prints.\<close>

datatype exn =
    FileNotFoundError string
  | OperationalError string
  | IntegrityError string
  | DataError string
  | AttributeError string
  | OtherException string

fun str_exn :: "exn \<Rightarrow> string" where
  "str_exn (FileNotFoundError m) = m"
| "str_exn (OperationalError m) = m"
| "str_exn (IntegrityError m) = m"
| "str_exn (DataError m) = m"
| "str_exn (AttributeError m) = m"
| "str_exn (OtherException m) = m"

text \<open>\<^verbatim>\<open>value.startswith(prefix)\<close>: on \<^verbatim>\<open>None\<close> the attribute lookup raises.\<close>

definition startswith :: "cell \<Rightarrow> string \<Rightarrow> exn + bool" where
  "startswith v p =
     (case v of
        None \<Rightarrow>
          Inl (AttributeError
            ([CHR 0x27] @ ''NoneType'' @ [CHR 0x27] @ '' object has no attribute '' @
             [CHR 0x27] @ ''startswith'' @ [CHR 0x27]))
      | Some s \<Rightarrow> Inr (take (length p) s = p))"

text \<open>What a function of the script hands back to its caller. None of the three functions
  has a \<^verbatim>\<open>return\<close> statement, so each returns \<^verbatim>\<open>None\<close>.\<close>

datatype pyval = PyNone | PyInt int | PyTuple "pyval list"

text \<open>\<^verbatim>\<open>str(n)\<close> for a non-negative integer.\<close>

function str_nat :: "nat \<Rightarrow> string" where
  "str_nat n =
     (if n < 10 then [''0123456789'' ! n]
      else str_nat (n div 10) @ [''0123456789'' ! (n mod 10)])"
  by pat_completeness auto
termination
  by (relation "measure (\<lambda>n. n)") auto

declare str_nat.simps [simp del]

subsection \<open>The tuple sent to the store\<close>

text \<open>The eleven positions of \<^verbatim>\<open>data_tuple\<close>, in the order of \<^verbatim>\<open>DB_COLUMNS\<close>.\<close>

record data_tuple =
  t_customer_id :: cell
  t_first_name :: cell
  t_last_name :: cell
  t_company :: cell
  t_city :: cell
  t_country :: cell
  t_phone_1 :: cell
  t_phone_2 :: cell
  t_email :: cell
  t_subscription_date :: cell
  t_website :: cell

definition CSV_HEADERS :: "string list" where
  "CSV_HEADERS =
     [''Index'', ''Customer Id'', ''First Name'', ''Last Name'', ''Company'', ''City'',
      ''Country'', ''Phone 1'', ''Phone 2'', ''Email'', ''Subscription Date'', ''Website'']"

definition DB_COLUMNS :: "string list" where
  "DB_COLUMNS =
     [''customer_id'', ''first_name'', ''last_name'', ''company'', ''city'',
      ''country'', ''phone_1'', ''phone_2'', ''email'', ''subscription_date'', ''website'']"

text \<open>The filter of lines 104 to 107. \<^verbatim>\<open>and\<close> is short-circuit: the last name is looked
  at only when the first name starts with A.\<close>

definition first_name_of :: "row \<Rightarrow> cell" where
  "first_name_of r = row_get_default r ''First Name'' []"

definition last_name_of :: "row \<Rightarrow> cell" where
  "last_name_of r = row_get_default r ''Last Name'' []"

definition keeps :: "row \<Rightarrow> exn + bool" where
  "keeps r =
     (case startswith (first_name_of r) ''A'' of
        Inl e \<Rightarrow> Inl e
      | Inr False \<Rightarrow> Inr False
      | Inr True \<Rightarrow> startswith (last_name_of r) ''F'')"

text \<open>Lines 109 to 111: the lookup key is \<^verbatim>\<open>'Subscription date'\<close>, with a small d;
  \<^verbatim>\<open>not sub_date\<close> holds for \<^verbatim>\<open>None\<close> and for the empty string.\<close>

definition sub_date_of :: "row \<Rightarrow> cell" where
  "sub_date_of r =
     (case row_get r ''Subscription date'' of
        None \<Rightarrow> None
      | Some s \<Rightarrow> if s = [] then None else Some s)"

definition data_tuple_of :: "row \<Rightarrow> data_tuple" where
  "data_tuple_of r =
     \<lparr> t_customer_id = row_get r ''Customer Id'',
       t_first_name = first_name_of r,
       t_last_name = last_name_of r,
       t_company = row_get r ''Company'',
       t_city = row_get r ''City'',
       t_country = row_get r ''Country'',
       t_phone_1 = row_get r ''Phone 1'',
       t_phone_2 = row_get r ''Phone 2'',
       t_email = row_get r ''Email'',
       t_subscription_date = sub_date_of r,
       t_website = row_get r ''Website'' \<rparr>"

subsection \<open>Calls on the connection, and the environment that answers them\<close>

text \<open>The three SQL texts of the script, by the names of the variables that hold them.\<close>

datatype statement = create_table_sql | sql_insert | sql_query

text \<open>A date as psycopg2 hands it back for a \<^verbatim>\<open>DATE\<close> column: year, month, day.\<close>

datatype date = Date nat nat nat

type_synonym result_row = "cell \<times> cell \<times> cell \<times> date option"

text \<open>Every call the script makes on psycopg2. \<^verbatim>\<open>Execute\<close> and \<^verbatim>\<open>ExecuteMany\<close> stand for
  the whole block \<^verbatim>\<open>with conn.cursor() as cur: cur.execute...(...)\<close>.\<close>

datatype call =
    Connect
  | Execute statement
  | ExecuteMany statement "data_tuple list"
  | Fetchall
  | Commit
  | Rollback
  | Close

text \<open>The database server and the file system are not part of the script. They are an
  environment: given the calls made so far and the call now attempted, \<open>raises\<close> says
  whether the call raises; \<open>fetched\<close> gives the rows \<^verbatim>\<open>fetchall\<close> returns;
  \<open>open_csv\<close> gives what opening and iterating a file yields: an exception on opening, or
  the items of the reader, each a row or an exception raised while reading.\<close>

record env =
  raises :: "call list \<Rightarrow> call \<Rightarrow> exn option"
  fetched :: "call list \<Rightarrow> result_row list"
  open_csv :: "string \<Rightarrow> exn + (exn + row) list"

text \<open>What the script has done so far: the calls it attempted on the connection, in
  order, and the lines it printed.\<close>

record world =
  calls :: "call list"
  out :: "string list"

type_synonym 'a prog = "world \<Rightarrow> (exn + 'a) \<times> world"

definition ret :: "'a \<Rightarrow> 'a prog" where
  "ret x w = (Inr x, w)"

definition raise :: "exn \<Rightarrow> 'a prog" where
  "raise e w = (Inl e, w)"

definition bind :: "'a prog \<Rightarrow> ('a \<Rightarrow> 'b prog) \<Rightarrow> 'b prog" where
  "bind m f w = (case m w of (Inl e, w') \<Rightarrow> (Inl e, w') | (Inr x, w') \<Rightarrow> f x w')"

text \<open>\<^verbatim>\<open>try: body except Exception as e: handler(e)\<close>.\<close>

definition try_except :: "'a prog \<Rightarrow> (exn \<Rightarrow> 'a prog) \<Rightarrow> 'a prog" where
  "try_except body handler w =
     (case body w of (Inl e, w') \<Rightarrow> handler e w' | (Inr x, w') \<Rightarrow> (Inr x, w'))"

definition print :: "string \<Rightarrow> unit prog" where
  "print s w = (Inr (), w\<lparr>out := out w @ [s]\<rparr>)"

definition db_call :: "env \<Rightarrow> call \<Rightarrow> unit prog" where
  "db_call en c w =
     (case raises en (calls w) c of
        None \<Rightarrow> (Inr (), w\<lparr>calls := calls w @ [c]\<rparr>)
      | Some e \<Rightarrow> (Inl e, w\<lparr>calls := calls w @ [c]\<rparr>))"

definition fetchall :: "env \<Rightarrow> result_row list prog" where
  "fetchall en w =
     (case raises en (calls w) Fetchall of
        None \<Rightarrow> (Inr (fetched en (calls w)), w\<lparr>calls := calls w @ [Fetchall]\<rparr>)
      | Some e \<Rightarrow> (Inl e, w\<lparr>calls := calls w @ [Fetchall]\<rparr>))"

definition open_file :: "env \<Rightarrow> string \<Rightarrow> (exn + row) list prog" where
  "open_file en name w = (open_csv en name, w)"

section \<open>The Batch Loader: \<^verbatim>\<open>process_and_insert_csv\<close>\<close>

text \<open>The local variables of the loop.\<close>

record locals =
  batch :: "data_tuple list"
  total_processed :: nat
  total_inserted :: nat

definition batch_msg :: "locals \<Rightarrow> string" where
  "batch_msg l =
     ''  ... inserted batch of '' @ str_nat (length (batch l)) @
     '' rows. (Total processed: '' @ str_nat (total_processed l) @ '')''"

text \<open>One pass of the \<^verbatim>\<open>for\<close> body, lines 101 to 135.\<close>

definition loop_body :: "env \<Rightarrow> int \<Rightarrow> row \<Rightarrow> locals \<Rightarrow> locals prog" where
  "loop_body en batch_size r l =
     (let l1 = l\<lparr>total_processed := total_processed l + 1\<rparr> in
      bind (\<lambda>w. (keeps r, w)) (\<lambda>k.
        let l2 = (if k then l1\<lparr>batch := batch l1 @ [data_tuple_of r],
                               total_inserted := total_inserted l1 + 1\<rparr>
                  else l1)
        in if int (length (batch l2)) \<ge> batch_size
           then bind (db_call en (ExecuteMany sql_insert (batch l2))) (\<lambda>_.
                bind (print (batch_msg l2)) (\<lambda>_.
                ret (l2\<lparr>batch := []\<rparr>)))
           else ret l2))"

fun loop :: "env \<Rightarrow> int \<Rightarrow> (exn + row) list \<Rightarrow> locals \<Rightarrow> locals prog" where
  "loop en batch_size [] l w = (Inr l, w)"
| "loop en batch_size (item # items) l w =
     (case item of
        Inl e \<Rightarrow> (Inl e, w)
      | Inr r \<Rightarrow>
          (case loop_body en batch_size r l w of
             (Inl e, w') \<Rightarrow> (Inl e, w')
           | (Inr l', w') \<Rightarrow> loop en batch_size items l' w'))"

definition final_batch_msg :: "locals \<Rightarrow> string" where
  "final_batch_msg l =
     ''  ... inserted final batch of '' @ str_nat (length (batch l)) @ '' rows.''"

text \<open>Lines 138 to 141: \<^verbatim>\<open>if batch:\<close> holds for a non-empty list.\<close>

definition final_flush :: "env \<Rightarrow> locals \<Rightarrow> unit prog" where
  "final_flush en l =
     (if batch l \<noteq> []
      then bind (db_call en (ExecuteMany sql_insert (batch l))) (\<lambda>_.
           print (final_batch_msg l))
      else ret ())"

definition complete_msg :: string where
  "complete_msg = CHR 0x0A # ''--- Processing Complete ---''"

definition processed_msg :: "nat \<Rightarrow> string" where
  "processed_msg n = ''Total rows processed from CSV: '' @ str_nat n"

definition inserted_msg :: "nat \<Rightarrow> string" where
  "inserted_msg n = ''Total rows inserted/updated in DB: '' @ str_nat n"

definition start_msg :: "string \<Rightarrow> string" where
  "start_msg csv_filename =
     ''Starting to process '' @ [CHR 0x27] @ csv_filename @ [CHR 0x27] @ ''...''"

definition not_found_msg :: "string \<Rightarrow> string" where
  "not_found_msg csv_filename =
     ''Error: Input file '' @ [CHR 0x27] @ csv_filename @ [CHR 0x27] @ '' not found.''"

definition processing_error_msg :: "exn \<Rightarrow> string" where
  "processing_error_msg e = ''An error occurred while processing the file: '' @ str_exn e"

definition loader_try :: "env \<Rightarrow> string \<Rightarrow> int \<Rightarrow> pyval prog" where
  "loader_try en csv_filename batch_size =
     bind (open_file en csv_filename) (\<lambda>items.
     bind (loop en batch_size items \<lparr>batch = [], total_processed = 0, total_inserted = 0\<rparr>) (\<lambda>l.
     bind (final_flush en l) (\<lambda>_.
     bind (print complete_msg) (\<lambda>_.
     bind (print (processed_msg (total_processed l))) (\<lambda>_.
     bind (print (inserted_msg (total_inserted l))) (\<lambda>_.
     ret PyNone))))))"

definition loader_except :: "string \<Rightarrow> exn \<Rightarrow> pyval prog" where
  "loader_except csv_filename e =
     (case e of
        FileNotFoundError _ \<Rightarrow>
          bind (print (not_found_msg csv_filename)) (\<lambda>_. ret PyNone)
      | _ \<Rightarrow>
          bind (print (processing_error_msg e)) (\<lambda>_. raise e))"

definition process_and_insert_csv :: "env \<Rightarrow> string \<Rightarrow> int \<Rightarrow> pyval prog" where
  "process_and_insert_csv en csv_filename batch_size =
     bind (print (start_msg csv_filename)) (\<lambda>_.
     try_except (loader_try en csv_filename batch_size) (loader_except csv_filename))"

text \<open>The batches of the bulk writes among a list of calls, in call order.\<close>

fun write_calls :: "call list \<Rightarrow> data_tuple list list" where
  "write_calls [] = []"
| "write_calls (ExecuteMany s b # cs) = b # write_calls cs"
| "write_calls (c # cs) = write_calls cs"


section \<open>The Schema Initializer: \<^verbatim>\<open>setup_database\<close>\<close>

definition setup_ok_msg :: string where
  "setup_ok_msg =
     ''Successfully ensured '' @ [CHR 0x27] @ ''customers'' @ [CHR 0x27] @ '' table exists.''"

definition setup_error_msg :: "exn \<Rightarrow> string" where
  "setup_error_msg e = ''Error during table setup: '' @ str_exn e"

text \<open>Lines 40 to 48: the function commits its own statement, and on any exception rolls
  back, prints and raises the exception again.\<close>

definition setup_database :: "env \<Rightarrow> pyval prog" where
  "setup_database en =
     try_except
       (bind (db_call en (Execute create_table_sql)) (\<lambda>_.
        bind (db_call en Commit) (\<lambda>_.
        bind (print setup_ok_msg) (\<lambda>_.
        ret PyNone))))
       (\<lambda>e. bind (db_call en Rollback) (\<lambda>_.
            bind (print (setup_error_msg e)) (\<lambda>_.
            raise e)))"

section \<open>The Report Reader: \<^verbatim>\<open>get_filtered_customers\<close>\<close>

text \<open>How an f-string prints a fetched value: \<^verbatim>\<open>None\<close> prints as the word None, a
  \<^verbatim>\<open>datetime.date\<close> in ISO form, zero-padded.\<close>

definition str_cell :: "cell \<Rightarrow> string" where
  "str_cell v = (case v of None \<Rightarrow> ''None'' | Some s \<Rightarrow> s)"

definition zero_pad :: "nat \<Rightarrow> string \<Rightarrow> string" where
  "zero_pad k s = replicate (k - length s) (CHR ''0'') @ s"

fun str_date :: "date \<Rightarrow> string" where
  "str_date (Date y m d) =
     zero_pad 4 (str_nat y) @ ''-'' @ zero_pad 2 (str_nat m) @ ''-'' @ zero_pad 2 (str_nat d)"

definition str_date_option :: "date option \<Rightarrow> string" where
  "str_date_option v = (case v of None \<Rightarrow> ''None'' | Some d \<Rightarrow> str_date d)"

fun format_row :: "result_row \<Rightarrow> string" where
  "format_row (r0, r1, r2, r3) =
     ''Name: '' @ str_cell r0 @ '' '' @ str_cell r1 @
     '', Company: '' @ str_cell r2 @
     '', Subscribed: '' @ str_date_option r3"

definition query_header_msg :: string where
  "query_header_msg =
     CHR 0x0A # ''--- Querying Database for Inserted Customers (Sorted by Date) ---''"

definition no_match_msg :: string where
  "no_match_msg = ''No matching customers found in the database.''"

definition query_error_msg :: "exn \<Rightarrow> string" where
  "query_error_msg e = ''An error occurred while querying the database: '' @ str_exn e"

text \<open>The \<^verbatim>\<open>for row in results\<close> loop of lines 176 to 178.\<close>

fun print_rows :: "result_row list \<Rightarrow> unit prog" where
  "print_rows [] w = (Inr (), w)"
| "print_rows (r # rs) w = print_rows rs (w\<lparr>out := out w @ [format_row r]\<rparr>)"

definition get_filtered_customers :: "env \<Rightarrow> pyval prog" where
  "get_filtered_customers en =
     bind (print query_header_msg) (\<lambda>_.
     try_except
       (bind (db_call en (Execute sql_query)) (\<lambda>_.
        bind (fetchall en) (\<lambda>results.
        if results = []
        then bind (print no_match_msg) (\<lambda>_. ret PyNone)
        else bind (print_rows results) (\<lambda>_. ret PyNone))))
       (\<lambda>e. bind (print (query_error_msg e)) (\<lambda>_. ret PyNone)))"

section \<open>The main block\<close>

definition CSV_FILE_TO_PROCESS :: string where
  "CSV_FILE_TO_PROCESS = ''customers.csv''"

definition connected_msg :: string where
  "connected_msg = ''Database connection established.''"

definition committed_msg :: string where
  "committed_msg = CHR 0x0A # ''All database changes have been committed.''"

definition critical_msg :: string where
  "critical_msg = ''CRITICAL: Connection Error. Check credentials/host/port.''"

definition details_msg :: "exn \<Rightarrow> string" where
  "details_msg e = ''Details: '' @ str_exn e"

definition rolling_back_msg :: string where
  "rolling_back_msg = ''An error occurred. Rolling back all changes.''"

definition closed_msg :: string where
  "closed_msg = CHR 0x0A # ''Database connection closed.''"

text \<open>Lines 193 to 207: what the \<^verbatim>\<open>try\<close> block does once \<^verbatim>\<open>conn\<close> is bound.\<close>

definition main_steps :: "env \<Rightarrow> unit prog" where
  "main_steps en =
     bind (print connected_msg) (\<lambda>_.
     bind (setup_database en) (\<lambda>_.
     bind (process_and_insert_csv en CSV_FILE_TO_PROCESS 1000) (\<lambda>_.
     bind (db_call en Commit) (\<lambda>_.
     bind (print committed_msg) (\<lambda>_.
     bind (get_filtered_customers en) (\<lambda>_.
     ret ()))))))"

text \<open>The two \<^verbatim>\<open>except\<close> clauses, in their order: \<^verbatim>\<open>OperationalError\<close> first, every
  other exception second. \<open>conn\<close> tells whether the variable \<^verbatim>\<open>conn\<close> is a connection
  (true) or still \<^verbatim>\<open>None\<close>.\<close>

definition main_except :: "env \<Rightarrow> bool \<Rightarrow> exn \<Rightarrow> unit prog" where
  "main_except en conn e =
     (case e of
        OperationalError _ \<Rightarrow>
          bind (print critical_msg) (\<lambda>_. print (details_msg e))
      | _ \<Rightarrow>
          bind (print rolling_back_msg) (\<lambda>_.
          bind (print (details_msg e)) (\<lambda>_.
          if conn then db_call en Rollback else ret ())))"

definition main_finally :: "env \<Rightarrow> bool \<Rightarrow> unit prog" where
  "main_finally en conn =
     (if conn then bind (db_call en Close) (\<lambda>_. print closed_msg) else ret ())"

text \<open>\<^verbatim>\<open>try: body finally: fin\<close>: \<open>fin\<close> runs on every path; an exception of \<open>body\<close>
  goes on after it, unless \<open>fin\<close> raises itself.\<close>

definition try_finally :: "'a prog \<Rightarrow> unit prog \<Rightarrow> 'a prog" where
  "try_finally body fin w =
     (case body w of
        (r, w') \<Rightarrow> (case fin w' of (Inl e, w'') \<Rightarrow> (Inl e, w'') | (Inr _, w'') \<Rightarrow> (r, w'')))"

definition main :: "env \<Rightarrow> unit prog" where
  "main en w =
     (case db_call en Connect w of
        (Inl e, w1) \<Rightarrow> try_finally (main_except en False e) (main_finally en False) w1
      | (Inr _, w1) \<Rightarrow>
          try_finally (try_except (main_steps en) (main_except en True))
            (main_finally en True) w1)"


section \<open>The store: what the SQL texts of the script do to the table\<close>

text \<open>
  The table of \<^verbatim>\<open>create_table_sql\<close>: a serial \<^verbatim>\<open>id\<close>, the key \<^verbatim>\<open>customer_id\<close>
  (\<^verbatim>\<open>UNIQUE NOT NULL\<close>), nine nullable \<^verbatim>\<open>VARCHAR\<close> columns and the nullable
  \<^verbatim>\<open>DATE\<close> column. \<open>id_seq\<close> is the next value of the sequence behind \<^verbatim>\<open>id\<close>.
\<close>

record customer =
  serial_id :: nat
  customer_id :: string
  first_name :: cell
  last_name :: cell
  company :: cell
  city :: cell
  country :: cell
  phone_1 :: cell
  phone_2 :: cell
  email :: cell
  subscription_date :: "date option"
  website :: cell

record table =
  customers :: "customer list"
  id_seq :: nat

definition then_ok :: "exn + 'a \<Rightarrow> ('a \<Rightarrow> exn + 'b) \<Rightarrow> exn + 'b" where
  "then_ok x f = (case x of Inl e \<Rightarrow> Inl e | Inr v \<Rightarrow> f v)"

text \<open>Assignment to a \<^verbatim>\<open>VARCHAR(n)\<close> column: a longer value is an error, unless all that
  exceeds \<open>n\<close> characters is spaces, which are cut off. (\<open>length\<close> counts the characters of
  the HOL string, which are PostgreSQL's characters for ASCII text.)\<close>

definition varchar :: "nat \<Rightarrow> cell \<Rightarrow> exn + cell" where
  "varchar n v =
     (case v of
        None \<Rightarrow> Inr None
      | Some s \<Rightarrow>
          if length s \<le> n then Inr (Some s)
          else if list_all (\<lambda>c. c = CHR '' '') (drop n s) then Inr (Some (take n s))
          else Inl (DataError (''value too long for type character varying('' @ str_nat n @ '')'')))"

text \<open>Assignment to the \<^verbatim>\<open>DATE\<close> column. How the server reads a date from text is not
  in the script: \<open>date_in\<close> is that reading, \<open>None\<close> where the server rejects the text.\<close>

definition to_date :: "(string \<Rightarrow> date option) \<Rightarrow> cell \<Rightarrow> exn + date option" where
  "to_date date_in v =
     (case v of
        None \<Rightarrow> Inr None
      | Some s \<Rightarrow>
          (case date_in s of
             None \<Rightarrow> Inl (DataError (''invalid input syntax for type date''))
           | Some d \<Rightarrow> Inr (Some d)))"

definition not_null :: "cell \<Rightarrow> exn + string" where
  "not_null v =
     (case v of
        None \<Rightarrow> Inl (IntegrityError (''null value in column customer_id violates not-null constraint''))
      | Some s \<Rightarrow> Inr s)"

text \<open>The row an \<^verbatim>\<open>INSERT\<close> of one tuple proposes: the values in the order of
  \<^verbatim>\<open>DB_COLUMNS\<close>, each assigned to its column, with the next \<^verbatim>\<open>id\<close>.\<close>

definition proposed :: "(string \<Rightarrow> date option) \<Rightarrow> nat \<Rightarrow> data_tuple \<Rightarrow> exn + customer" where
  "proposed date_in next_id t =
     then_ok (varchar 100 (t_customer_id t)) (\<lambda>v0.
     then_ok (varchar 255 (t_first_name t)) (\<lambda>v1.
     then_ok (varchar 255 (t_last_name t)) (\<lambda>v2.
     then_ok (varchar 255 (t_company t)) (\<lambda>v3.
     then_ok (varchar 255 (t_city t)) (\<lambda>v4.
     then_ok (varchar 255 (t_country t)) (\<lambda>v5.
     then_ok (varchar 100 (t_phone_1 t)) (\<lambda>v6.
     then_ok (varchar 100 (t_phone_2 t)) (\<lambda>v7.
     then_ok (varchar 255 (t_email t)) (\<lambda>v8.
     then_ok (to_date date_in (t_subscription_date t)) (\<lambda>v9.
     then_ok (varchar 255 (t_website t)) (\<lambda>v10.
     then_ok (not_null v0) (\<lambda>k.
       Inr \<lparr> serial_id = next_id, customer_id = k, first_name = v1, last_name = v2,
             company = v3, city = v4, country = v5, phone_1 = v6, phone_2 = v7,
             email = v8, subscription_date = v9, website = v10 \<rparr>))))))))))))"

text \<open>\<^verbatim>\<open>ON CONFLICT (customer_id) DO UPDATE SET\<close>: the ten assignments of lines 77 to 86,
  on the stored row \<open>r\<close>, from the proposed row.\<close>

definition do_update :: "customer \<Rightarrow> customer \<Rightarrow> customer" where
  "do_update excluded r =
     r\<lparr> first_name := first_name excluded,
        last_name := last_name excluded,
        company := company excluded,
        city := city excluded,
        country := country excluded,
        phone_1 := phone_1 excluded,
        phone_2 := phone_2 excluded,
        email := email excluded,
        subscription_date := subscription_date excluded,
        website := website excluded \<rparr>"

text \<open>\<^verbatim>\<open>sql_insert\<close> for one tuple. The sequence moves on whether the row is inserted or
  an existing row is updated.\<close>

definition insert_one :: "(string \<Rightarrow> date option) \<Rightarrow> data_tuple \<Rightarrow> table \<Rightarrow> exn + table" where
  "insert_one date_in t tb =
     (case proposed date_in (id_seq tb) t of
        Inl e \<Rightarrow> Inl e
      | Inr c \<Rightarrow>
          Inr \<lparr> customers =
                  (if customer_id c \<in> set (map customer_id (customers tb))
                   then map (\<lambda>r. if customer_id r = customer_id c then do_update c r else r)
                          (customers tb)
                   else customers tb @ [c]),
                id_seq = id_seq tb + 1 \<rparr>)"

text \<open>\<^verbatim>\<open>cur.executemany(sql_insert, batch)\<close>: the statement once per tuple, in order,
  until one fails.\<close>

fun executemany :: "(string \<Rightarrow> date option) \<Rightarrow> data_tuple list \<Rightarrow> table \<Rightarrow> exn + table" where
  "executemany date_in [] tb = Inr tb"
| "executemany date_in (t # ts) tb =
     (case insert_one date_in t tb of
        Inl e \<Rightarrow> Inl e
      | Inr tb' \<Rightarrow> executemany date_in ts tb')"

text \<open>\<^verbatim>\<open>sql_query\<close>. \<^verbatim>\<open>LIKE 'A%'\<close> holds for a string that starts with A and is not
  true for \<^verbatim>\<open>NULL\<close>.\<close>

definition like_prefix :: "string \<Rightarrow> cell \<Rightarrow> bool" where
  "like_prefix p v = (case v of None \<Rightarrow> False | Some s \<Rightarrow> take (length p) s = p)"

definition where_clause :: "customer \<Rightarrow> bool" where
  "where_clause r = (like_prefix ''A'' (first_name r) \<and> like_prefix ''F'' (last_name r))"

fun date_le :: "date \<Rightarrow> date \<Rightarrow> bool" where
  "date_le (Date y m d) (Date y' m' d') =
     (y < y' \<or> (y = y' \<and> (m < m' \<or> (m = m' \<and> d \<le> d'))))"

text \<open>\<^verbatim>\<open>ORDER BY subscription_date DESC\<close>: \<open>a\<close> may stand before \<open>b\<close>. PostgreSQL puts
  \<^verbatim>\<open>NULL\<close> first in a descending order. Rows of equal date may come in any order; the
  insertion below is one such order.\<close>

definition may_precede :: "date option \<Rightarrow> date option \<Rightarrow> bool" where
  "may_precede a b =
     (case a of
        None \<Rightarrow> True
      | Some x \<Rightarrow> (case b of None \<Rightarrow> False | Some y \<Rightarrow> date_le y x))"

fun insert_desc :: "customer \<Rightarrow> customer list \<Rightarrow> customer list" where
  "insert_desc r [] = [r]"
| "insert_desc r (x # xs) =
     (if may_precede (subscription_date r) (subscription_date x)
      then r # x # xs else x # insert_desc r xs)"

fun order_by_desc :: "customer list \<Rightarrow> customer list" where
  "order_by_desc [] = []"
| "order_by_desc (r # rs) = insert_desc r (order_by_desc rs)"

definition select_list :: "customer \<Rightarrow> result_row" where
  "select_list r = (first_name r, last_name r, company r, subscription_date r)"

definition select_customers :: "customer list \<Rightarrow> result_row list" where
  "select_customers tb = map select_list (order_by_desc (filter where_clause tb))"

section \<open>Notions for the statements, and example inputs\<close>

text \<open>The definitions below are not code of the script. They name what the theorems
  speak about (runs that complete, the bulk writes of a run, the rows a load proposes) and
  give the concrete sources, stores and tables on which the theorems are applied.\<close>

text \<open>
  \<open>kept r\<close>: the filter of the loop holds for the row. \<open>filter_defined r\<close>: the filter
  does not raise on the row, that is, no cell it reads is \<^verbatim>\<open>None\<close>.
  \<open>accepts_writes en\<close>: the store raises on no bulk write.
\<close>

definition kept :: "row \<Rightarrow> bool" where
  "kept r = (keeps r = Inr True)"

definition filter_defined :: "row \<Rightarrow> bool" where
  "filter_defined r = (case keeps r of Inl _ \<Rightarrow> False | Inr _ \<Rightarrow> True)"

definition accepts_writes :: "env \<Rightarrow> bool" where
  "accepts_writes en = (\<forall>h b. raises en h (ExecuteMany sql_insert b) = None)"

text \<open>\<open>appended r l\<close>: the local variables after the first half of the loop body, up
  to line 128, on a row on which the filter does not raise.\<close>

definition appended :: "row \<Rightarrow> locals \<Rightarrow> locals" where
  "appended r l =
     (if kept r
      then l\<lparr>total_processed := total_processed l + 1,
             batch := batch l @ [data_tuple_of r],
             total_inserted := total_inserted l + 1\<rparr>
      else l\<lparr>total_processed := total_processed l + 1\<rparr>)"

text \<open>\<open>loop_post\<close>: what a completed run of the loop over \<open>rows\<close> has done, from the
  variables \<open>l\<close> and world \<open>w\<close> to \<open>l'\<close> and \<open>w'\<close>, with \<open>bsl\<close> the batches it wrote.
  \<open>loader_post\<close> is the same for the whole loader, with the final flush (\<open>flushed\<close>)
  and the three closing lines (\<open>complete_msgs\<close>).\<close>

definition loop_post ::
  "int \<Rightarrow> row list \<Rightarrow> locals \<Rightarrow> world \<Rightarrow> data_tuple list list \<Rightarrow> locals \<Rightarrow> world \<Rightarrow> bool" where
  "loop_post n rows l w bsl l' w' =
     (calls w' = calls w @ map (ExecuteMany sql_insert) bsl
      \<and> concat bsl @ batch l' = batch l @ map data_tuple_of (filter kept rows)
      \<and> total_processed l' = total_processed l + length rows
      \<and> total_inserted l' = total_inserted l + length (filter kept rows)
      \<and> prefix (out w) (out w')
      \<and> (0 < n \<and> int (length (batch l)) < n \<longrightarrow>
           (\<forall>b\<in>set bsl. int (length b) = n) \<and> int (length (batch l')) < n))"

definition flushed :: "locals \<Rightarrow> data_tuple list list" where
  "flushed l = (if batch l = [] then [] else [batch l])"

definition complete_msgs :: "nat \<Rightarrow> nat \<Rightarrow> string list" where
  "complete_msgs p i = [complete_msg, processed_msg p, inserted_msg i]"

definition loader_post :: "int \<Rightarrow> row list \<Rightarrow> world \<Rightarrow> data_tuple list list \<Rightarrow> world \<Rightarrow> bool" where
  "loader_post n rows w bs w' =
     (calls w' = calls w @ map (ExecuteMany sql_insert) bs
      \<and> concat bs = map data_tuple_of (filter kept rows)
      \<and> (\<exists>ls. out w' = out w @ ls @
            complete_msgs (length rows) (length (filter kept rows)))
      \<and> (0 < n \<longrightarrow> (\<forall>b\<in>set (butlast bs). int (length b) = n)
                   \<and> (\<forall>b\<in>set bs. b \<noteq> [] \<and> int (length b) \<le> n)))"

text \<open>\<open>new_writes w w'\<close>: the batches of the bulk writes made between the worlds \<open>w\<close>
  and \<open>w'\<close>. \<open>all_written P w\<close>: every tuple written so far satisfies \<open>P\<close>.\<close>

definition new_writes :: "world \<Rightarrow> world \<Rightarrow> data_tuple list list" where
  "new_writes w w' = write_calls (drop (length (calls w)) (calls w'))"

definition all_written :: "(data_tuple \<Rightarrow> bool) \<Rightarrow> world \<Rightarrow> bool" where
  "all_written P w = (\<forall>b\<in>set (write_calls (calls w)). \<forall>t\<in>set b. P t)"

text \<open>The two rows of the specification's example, with all twelve columns, and the row
  DictReader yields for the data line \<^verbatim>\<open>3,3\<close>: the ten fields the line lacks are
  \<^verbatim>\<open>None\<close>. \<open>quiet_store items\<close> is an environment in which no call raises and
  \<^verbatim>\<open>customers.csv\<close> holds \<open>items\<close>.\<close>

definition alice_row :: row where
  "alice_row = map_of
     [(''Index'', Some ''1''), (''Customer Id'', Some ''1''), (''First Name'', Some ''Alice''),
      (''Last Name'', Some ''Fox''), (''Company'', Some ''Acme''), (''City'', Some ''Oslo''),
      (''Country'', Some ''Norway''), (''Phone 1'', Some ''555-1''), (''Phone 2'', Some ''555-2''),
      (''Email'', Some ''alice@acme.example''), (''Subscription Date'', Some ''2020-01-01''),
      (''Website'', Some ''acme.example'')]"

definition bob_row :: row where
  "bob_row = map_of
     [(''Index'', Some ''2''), (''Customer Id'', Some ''2''), (''First Name'', Some ''Bob''),
      (''Last Name'', Some ''Fox''), (''Company'', Some ''Bolt''), (''City'', Some ''Rome''),
      (''Country'', Some ''Italy''), (''Phone 1'', Some ''555-3''), (''Phone 2'', Some ''555-4''),
      (''Email'', Some ''bob@bolt.example''), (''Subscription Date'', Some ''2021-02-03''),
      (''Website'', Some ''bolt.example'')]"

definition short_row :: row where
  "short_row = map_of
     [(''Index'', Some ''3''), (''Customer Id'', Some ''3''), (''First Name'', None),
      (''Last Name'', None), (''Company'', None), (''City'', None),
      (''Country'', None), (''Phone 1'', None), (''Phone 2'', None),
      (''Email'', None), (''Subscription Date'', None), (''Website'', None)]"

text \<open>Two more rows that the filter keeps, Anna Fry and Amy Ford.\<close>

definition anna_row :: row where
  "anna_row = map_of
     [(''Index'', Some ''4''), (''Customer Id'', Some ''4''), (''First Name'', Some ''Anna''),
      (''Last Name'', Some ''Fry''), (''Company'', Some ''Cask''), (''City'', Some ''Bonn''),
      (''Country'', Some ''Germany''), (''Phone 1'', Some ''555-5''), (''Phone 2'', Some ''555-6''),
      (''Email'', Some ''anna@cask.example''), (''Subscription Date'', Some ''2019-05-06''),
      (''Website'', Some ''cask.example'')]"

definition amy_row :: row where
  "amy_row = map_of
     [(''Index'', Some ''5''), (''Customer Id'', Some ''5''), (''First Name'', Some ''Amy''),
      (''Last Name'', Some ''Ford''), (''Company'', Some ''Dune''), (''City'', Some ''Lyon''),
      (''Country'', Some ''France''), (''Phone 1'', Some ''555-7''), (''Phone 2'', Some ''555-8''),
      (''Email'', Some ''amy@dune.example''), (''Subscription Date'', Some ''2022-07-08''),
      (''Website'', Some ''dune.example'')]"

definition quiet_store :: "(exn + row) list \<Rightarrow> env" where
  "quiet_store items =
     \<lparr> raises = (\<lambda>h c. None), fetched = (\<lambda>h. []),
       open_csv = (\<lambda>name. if name = ''customers.csv'' then Inr items
                           else Inl (FileNotFoundError ''No such file or directory'')) \<rparr>"

definition fresh :: world where
  "fresh = \<lparr> calls = [], out = [] \<rparr>"

text \<open>\<open>never_raises en\<close>: no call on the connection raises, whatever was called before.\<close>

definition never_raises :: "env \<Rightarrow> bool" where
  "never_raises en = (\<forall>h c. raises en h c = None)"

text \<open>\<open>report_lines rs\<close>: what the Report Reader prints after its heading for the
  fetched rows \<open>rs\<close>. \<open>failing_store e items\<close>: a store on which every bulk write
  raises \<open>e\<close> and nothing else raises.\<close>

definition report_lines :: "result_row list \<Rightarrow> string list" where
  "report_lines rs = (if rs = [] then [no_match_msg] else map format_row rs)"

definition failing_store :: "exn \<Rightarrow> (exn + row) list \<Rightarrow> env" where
  "failing_store e items =
     \<lparr> raises = (\<lambda>h c. case c of ExecuteMany s b \<Rightarrow> Some e | _ \<Rightarrow> None),
       fetched = (\<lambda>h. []),
       open_csv = (\<lambda>name. if name = ''customers.csv'' then Inr items
                           else Inl (FileNotFoundError ''No such file or directory'')) \<rparr>"

text \<open>\<open>in_order rs\<close>: each row may stand before all that follow it, in the descending
  order of the subscription date.\<close>

definition in_order :: "customer list \<Rightarrow> bool" where
  "in_order rs = sorted_wrt (\<lambda>a b. may_precede (subscription_date a) (subscription_date b)) rs"

text \<open>\<open>step c rs\<close> is what \<open>insert_one\<close> does to the rows with the proposed row \<open>c\<close>.
  \<open>proposals\<close> lists the rows a batch proposes, \<open>final_for cs k\<close> is the last row of
  \<open>cs\<close> with key \<open>k\<close>, and \<open>settle cs r\<close> gives \<open>r\<close> the values of the last row of \<open>cs\<close>
  that has its key.\<close>

definition upd :: "customer \<Rightarrow> customer list \<Rightarrow> customer list" where
  "upd c rs = map (\<lambda>r. if customer_id r = customer_id c then do_update c r else r) rs"



fun final_for :: "customer list \<Rightarrow> string \<Rightarrow> customer option" where
  "final_for [] k = None"
| "final_for (c # cs) k =
     (case final_for cs k of
        Some c' \<Rightarrow> Some c'
      | None \<Rightarrow> if customer_id c = k then Some c else None)"


text \<open>Three stored customers, of whom Alice Fox and Abe Fry match the query; a store that
  answers the query from them; the tuple of Alice Fox with another company; and a server
  that accepts no date text, which suffices here since every tuple sent carries no date.\<close>

definition stored_alice :: customer where
  "stored_alice =
     \<lparr>serial_id = 1, customer_id = ''1'', first_name = Some ''Alice'',
      last_name = Some ''Fox'', company = Some ''Acme'', city = Some ''Oslo'',
      country = Some ''Norway'', phone_1 = Some ''555-1'', phone_2 = Some ''555-2'',
      email = Some ''alice@acme.example'', subscription_date = Some (Date 2020 1 1),
      website = Some ''acme.example''\<rparr>"

definition stored_abe :: customer where
  "stored_abe =
     \<lparr>serial_id = 2, customer_id = ''7'', first_name = Some ''Abe'',
      last_name = Some ''Fry'', company = None, city = None,
      country = None, phone_1 = None, phone_2 = None,
      email = None, subscription_date = None, website = None\<rparr>"

definition stored_bob :: customer where
  "stored_bob = stored_alice\<lparr>serial_id := 3, customer_id := ''2'', first_name := Some ''Bob''\<rparr>"

definition report_store :: "customer list \<Rightarrow> env" where
  "report_store tb =
     \<lparr> raises = (\<lambda>h c. None), fetched = (\<lambda>h. select_customers tb),
       open_csv = (\<lambda>name. Inl (FileNotFoundError ''No such file or directory'')) \<rparr>"





section \<open>Runs of the Batch Loader that complete\<close>

lemma loop_body_flush:
  assumes "accepts_writes en" "filter_defined r" "n \<le> int (length (batch (appended r l)))"
  shows "loop_body en n r l w =
     (Inr ((appended r l)\<lparr>batch := []\<rparr>),
      w\<lparr>calls := calls w @ [ExecuteMany sql_insert (batch (appended r l))],
        out := out w @ [batch_msg (appended r l)]\<rparr>)"
proof -
  from assms(2) obtain k where k: "keeps r = Inr k"
    by (cases "keeps r") (simp_all add: filter_defined_def)
  have q: "raises en (calls w) (ExecuteMany sql_insert (batch (appended r l))) = None"
    using assms(1) by (simp add: accepts_writes_def)
  show ?thesis
  proof (cases k)
    case True
    with k have kr: "kept r" by (simp add: kept_def)
    show ?thesis using k True assms(3) q unfolding appended_def
      by (simp add: loop_body_def bind_def db_call_def print_def ret_def Let_def kr)
  next
    case False
    with k have kr: "\<not> kept r" by (simp add: kept_def)
    show ?thesis using k False assms(3) q unfolding appended_def
      by (simp add: loop_body_def bind_def db_call_def print_def ret_def Let_def kr)
  qed
qed

lemma loop_body_keep:
  assumes "filter_defined r" "\<not> n \<le> int (length (batch (appended r l)))"
  shows "loop_body en n r l w = (Inr (appended r l), w)"
proof -
  from assms(1) obtain k where k: "keeps r = Inr k"
    by (cases "keeps r") (simp_all add: filter_defined_def)
  show ?thesis
  proof (cases k)
    case True
    with k have kr: "kept r" by (simp add: kept_def)
    show ?thesis using k True assms(2) unfolding appended_def
      by (simp add: loop_body_def bind_def ret_def Let_def kr)
  next
    case False
    with k have kr: "\<not> kept r" by (simp add: kept_def)
    show ?thesis using k False assms(2) unfolding appended_def
      by (simp add: loop_body_def bind_def ret_def Let_def kr)
  qed
qed

lemma loop_post_Nil: "loop_post n [] l w [] l w"
  by (simp add: loop_post_def)

lemma appended_batch:
  "batch (appended r l) = batch l @ map data_tuple_of (filter kept [r])"
  by (simp add: appended_def)

lemma appended_counts:
  "total_processed (appended r l) = total_processed l + 1"
  "total_inserted (appended r l) = total_inserted l + length (filter kept [r])"
  by (simp_all add: appended_def)

lemma loop_post_flush:
  assumes "n \<le> int (length (batch (appended r l)))"
  shows "loop_post n [r] l w [batch (appended r l)] ((appended r l)\<lparr>batch := []\<rparr>)
     (w\<lparr>calls := calls w @ [ExecuteMany sql_insert (batch (appended r l))],
        out := out w @ [batch_msg (appended r l)]\<rparr>)"
proof -
  have len: "length (batch (appended r l)) \<le> length (batch l) + 1"
    by (simp add: appended_def)
  have sz: "0 < n \<and> int (length (batch l)) < n \<longrightarrow> int (length (batch (appended r l))) = n"
    using assms len by linarith
  show ?thesis
    unfolding loop_post_def using sz
    by (simp add: appended_batch appended_counts del: filter.simps)
qed

lemma loop_post_keep:
  assumes "\<not> n \<le> int (length (batch (appended r l)))"
  shows "loop_post n [r] l w [] (appended r l) w"
  unfolding loop_post_def using assms
  by (simp add: appended_batch appended_counts del: filter.simps)

lemma loop_post_trans:
  assumes a: "loop_post n [r] l w b1 l1 w1" and b: "loop_post n rows l1 w1 b2 l2 w2"
  shows "loop_post n (r # rows) l w (b1 @ b2) l2 w2"
proof -
  have c1: "calls w2 = calls w @ map (ExecuteMany sql_insert) (b1 @ b2)"
    using a b by (simp add: loop_post_def)
  have "concat (b1 @ b2) @ batch l2 = concat b1 @ (concat b2 @ batch l2)" by simp
  also have "\<dots> = concat b1 @ (batch l1 @ map data_tuple_of (filter kept rows))"
    using b by (simp add: loop_post_def)
  also have "\<dots> = (concat b1 @ batch l1) @ map data_tuple_of (filter kept rows)" by simp
  also have "\<dots> = (batch l @ map data_tuple_of (filter kept [r])) @ map data_tuple_of (filter kept rows)"
    using a by (simp only: loop_post_def)
  also have "\<dots> = batch l @ map data_tuple_of (filter kept (r # rows))" by simp
  finally have c2: "concat (b1 @ b2) @ batch l2 = batch l @ map data_tuple_of (filter kept (r # rows))" .
  have c3: "total_processed l2 = total_processed l + length (r # rows)"
    using a b by (simp add: loop_post_def)
  have c4: "total_inserted l2 = total_inserted l + length (filter kept (r # rows))"
    using a b by (simp add: loop_post_def)
  have c5: "prefix (out w) (out w2)"
    using a b unfolding loop_post_def by (meson prefix_order.trans)
  have c6: "0 < n \<and> int (length (batch l)) < n \<longrightarrow>
           (\<forall>b\<in>set (b1 @ b2). int (length b) = n) \<and> int (length (batch l2)) < n"
  proof
    assume h: "0 < n \<and> int (length (batch l)) < n"
    with a have a6: "(\<forall>b\<in>set b1. int (length b) = n) \<and> int (length (batch l1)) < n"
      unfolding loop_post_def by blast
    with h b have b6: "(\<forall>b\<in>set b2. int (length b) = n) \<and> int (length (batch l2)) < n"
      unfolding loop_post_def by blast
    from a6 b6 show "(\<forall>b\<in>set (b1 @ b2). int (length b) = n) \<and> int (length (batch l2)) < n"
      by auto
  qed
  show ?thesis unfolding loop_post_def using c1 c2 c3 c4 c5 c6 by blast
qed

lemma loop_ok:
  assumes "accepts_writes en" "\<forall>r\<in>set rows. filter_defined r"
  shows "\<exists>bsl l' w'. loop en n (map Inr rows) l w = (Inr l', w') \<and> loop_post n rows l w bsl l' w'"
  using assms(2)
proof (induction rows arbitrary: l w)
  case Nil
  show ?case using loop_post_Nil by simp blast
next
  case (Cons r rows)
  from Cons.prems have fr: "filter_defined r" and frs: "\<forall>r\<in>set rows. filter_defined r"
    by simp_all
  obtain b1 l1 w1 where s1: "loop_body en n r l w = (Inr l1, w1)" "loop_post n [r] l w b1 l1 w1"
  proof (cases "n \<le> int (length (batch (appended r l)))")
    case True
    from loop_body_flush[OF assms(1) fr True] loop_post_flush[OF True] that show ?thesis by blast
  next
    case False
    from loop_body_keep[OF fr False] loop_post_keep[OF False] that show ?thesis by blast
  qed
  from Cons.IH[OF frs, of l1 w1]
  obtain b2 l2 w2 where s2: "loop en n (map Inr rows) l1 w1 = (Inr l2, w2)"
     "loop_post n rows l1 w1 b2 l2 w2"
    by blast
  have run: "loop en n (map Inr (r # rows)) l w = (Inr l2, w2)"
    using s1(1) s2(1) by simp
  from run loop_post_trans[OF s1(2) s2(2)] show ?case by blast
qed

lemma write_calls_map [simp]: "write_calls (map (ExecuteMany s) bs) = bs"
  by (induction bs) simp_all

lemma final_flush_empty:
  "batch l = [] \<Longrightarrow> final_flush en l w = (Inr (), w)"
  by (simp add: final_flush_def ret_def)

lemma final_flush_nonempty:
  assumes "accepts_writes en" "batch l \<noteq> []"
  shows "final_flush en l w =
     (Inr (), w\<lparr>calls := calls w @ [ExecuteMany sql_insert (batch l)],
               out := out w @ [final_batch_msg l]\<rparr>)"
proof -
  have q: "raises en (calls w) (ExecuteMany sql_insert (batch l)) = None"
    using assms(1) by (simp add: accepts_writes_def)
  show ?thesis using assms(2) q
    by (simp add: final_flush_def bind_def db_call_def print_def)
qed

lemma final_flush_ok:
  assumes "accepts_writes en"
  shows "\<exists>w'. final_flush en l w = (Inr (), w')
     \<and> calls w' = calls w @ map (ExecuteMany sql_insert) (flushed l)
     \<and> prefix (out w) (out w')"
proof (cases "batch l = []")
  case True
  then show ?thesis using final_flush_empty[OF True, of en w] by (simp add: flushed_def)
next
  case False
  show ?thesis using final_flush_nonempty[OF assms False, of w] False
    by (simp add: flushed_def)
qed

lemma print_complete:
  "bind (print complete_msg) (\<lambda>_.
     bind (print (processed_msg p)) (\<lambda>_.
     bind (print (inserted_msg i)) (\<lambda>_. ret PyNone))) w
   = (Inr PyNone, w\<lparr>out := out w @ complete_msgs p i\<rparr>)"
  by (simp add: bind_def print_def ret_def complete_msgs_def)

lemma loader_try_ok:
  assumes aw: "accepts_writes en"
    and op: "open_csv en name = Inr (map Inr rows)"
    and fd: "\<forall>r\<in>set rows. filter_defined r"
  shows "\<exists>bs w'. loader_try en name n w = (Inr PyNone, w') \<and> loader_post n rows w bs w'"
proof -
  let ?l0 = "\<lparr>batch = [], total_processed = 0, total_inserted = 0\<rparr>"
  from loop_ok[OF aw fd, of n ?l0 w]
  obtain bsl l1 w1 where s1: "loop en n (map Inr rows) ?l0 w = (Inr l1, w1)"
    and p1: "loop_post n rows ?l0 w bsl l1 w1" by blast
  from final_flush_ok[OF aw, of l1 w1]
  obtain w2 where s2: "final_flush en l1 w1 = (Inr (), w2)"
    and c2: "calls w2 = calls w1 @ map (ExecuteMany sql_insert) (flushed l1)"
    and o2: "prefix (out w1) (out w2)" by blast
  let ?w3 = "w2\<lparr>out := out w2 @ complete_msgs (total_processed l1) (total_inserted l1)\<rparr>"
  have run: "loader_try en name n w = (Inr PyNone, ?w3)"
    unfolding loader_try_def
    by (simp add: bind_def[of "open_file en name"] open_file_def op
        bind_def[of "loop en n (map Inr rows) ?l0"] s1
        bind_def[of "final_flush en l1"] s2 print_complete)
  have c: "calls ?w3 = calls w @ map (ExecuteMany sql_insert) (bsl @ flushed l1)"
    using p1 c2 by (simp add: loop_post_def)
  have cat: "concat (bsl @ flushed l1) = map data_tuple_of (filter kept rows)"
  proof -
    have "concat (bsl @ flushed l1) = concat bsl @ batch l1" by (simp add: flushed_def)
    also have "\<dots> = map data_tuple_of (filter kept rows)" using p1 by (simp add: loop_post_def)
    finally show ?thesis .
  qed
  have tp: "total_processed l1 = length rows" and ti: "total_inserted l1 = length (filter kept rows)"
    using p1 by (simp_all add: loop_post_def)
  have "prefix (out w) (out w2)" using p1 o2 unfolding loop_post_def by (meson prefix_order.trans)
  then obtain ls where ls: "out w2 = out w @ ls" by (auto simp: prefix_def)
  have o: "\<exists>ls. out ?w3 = out w @ ls @
complete_msgs (length rows) (length (filter kept rows))"
    using ls tp ti by simp
  have sz: "0 < n \<longrightarrow> (\<forall>b\<in>set (butlast (bsl @ flushed l1)). int (length b) = n)
                   \<and> (\<forall>b\<in>set (bsl @ flushed l1). b \<noteq> [] \<and> int (length b) \<le> n)"
  proof
    assume n: "0 < n"
    with p1 have full: "\<forall>b\<in>set bsl. int (length b) = n" and rest: "int (length (batch l1)) < n"
      by (simp_all add: loop_post_def)
    have a: "\<forall>b\<in>set (butlast (bsl @ flushed l1)). int (length b) = n"
    proof (cases "batch l1 = []")
      case True
      then have "butlast (bsl @ flushed l1) = butlast bsl" by (simp add: flushed_def)
      then show ?thesis using full by (auto dest: in_set_butlastD)
    next
      case False
      then have "butlast (bsl @ flushed l1) = bsl" by (simp add: flushed_def)
      then show ?thesis using full by simp
    qed
    have b: "\<forall>b\<in>set (bsl @ flushed l1). b \<noteq> [] \<and> int (length b) \<le> n"
    proof
      fix b assume "b \<in> set (bsl @ flushed l1)"
      then consider "b \<in> set bsl" | "b = batch l1" "batch l1 \<noteq> []"
        by (auto simp: flushed_def split: if_splits)
      then show "b \<noteq> [] \<and> int (length b) \<le> n"
      proof cases
        case 1
        with full have "int (length b) = n" by blast
        with n show ?thesis by auto
      next
        case 2
        with rest show ?thesis by simp
      qed
    qed
    from a b show "(\<forall>b\<in>set (butlast (bsl @ flushed l1)). int (length b) = n)
                   \<and> (\<forall>b\<in>set (bsl @ flushed l1). b \<noteq> [] \<and> int (length b) \<le> n)" by blast
  qed
  have "loader_post n rows w (bsl @ flushed l1) ?w3"
    unfolding loader_post_def using c cat o sz by blast
  with run show ?thesis by blast
qed

lemma loader_ok:
  assumes aw: "accepts_writes en"
    and op: "open_csv en name = Inr (map Inr rows)"
    and fd: "\<forall>r\<in>set rows. filter_defined r"
  shows "\<exists>bs w'. process_and_insert_csv en name n w = (Inr PyNone, w') \<and> loader_post n rows w bs w'"
proof -
  let ?w0 = "w\<lparr>out := out w @ [start_msg name]\<rparr>"
  from loader_try_ok[OF aw op fd, of n ?w0]
  obtain bs w' where r: "loader_try en name n ?w0 = (Inr PyNone, w')"
    and p: "loader_post n rows ?w0 bs w'" by blast
  have run: "process_and_insert_csv en name n w = (Inr PyNone, w')"
    by (simp add: process_and_insert_csv_def bind_def print_def try_except_def r)
  from p obtain ls where "out w' = out ?w0 @ ls @
complete_msgs (length rows) (length (filter kept rows))"
    unfolding loader_post_def by blast
  then have "out w' = out w @ ([start_msg name] @ ls) @
complete_msgs (length rows) (length (filter kept rows))" by simp
  then have o: "\<exists>ls. out w' = out w @ ls @
complete_msgs (length rows) (length (filter kept rows))" by blast
  have "loader_post n rows w bs w'"
    using p o unfolding loader_post_def by simp
  with run show ?thesis by blast
qed

lemma new_writes_post:
  "loader_post n rows w bs w' \<Longrightarrow> new_writes w w' = bs"
  by (simp add: loader_post_def new_writes_def)

lemma length_concat_full:
  "\<forall>b\<in>set xs. length b = N \<Longrightarrow> length (concat xs) = length xs * N"
  by (induction xs) simp_all

lemma chunk_total:
  assumes "bs \<noteq> []" "\<forall>b\<in>set (butlast bs). length b = N"
  shows "length (concat bs) = (length bs - 1) * N + length (last bs)"
proof -
  have "bs = butlast bs @ [last bs]" using assms(1) by simp
  then have "concat bs = concat (butlast bs) @ last bs"
    by (metis concat.simps(1) concat.simps(2) concat_append append_Nil2)
  then show ?thesis using length_concat_full[OF assms(2)] by simp
qed

lemma chunk_arith:
  fixes k r N :: nat
  assumes "0 < r" "r \<le> N"
  shows "(k * N + r + N - 1) div N = Suc k"
    and "(if (k * N + r) mod N = 0 then N else (k * N + r) mod N) = r"
proof -
  have a: "N * Suc k \<le> k * N + r + N - 1" using assms by (simp add: algebra_simps)
  have b: "k * N + r + N - 1 < N * Suc (Suc k)" using assms by (simp add: algebra_simps)
  show "(k * N + r + N - 1) div N = Suc k" using a b by (rule div_nat_eqI)
  have m: "(k * N + r) mod N = r mod N" by simp
  show "(if (k * N + r) mod N = 0 then N else (k * N + r) mod N) = r"
  proof (cases "r = N")
    case True
    then show ?thesis using m by simp
  next
    case False
    with assms have "r < N" by simp
    then show ?thesis using m assms by simp
  qed
qed

lemma chunk_count:
  assumes N: "0 < N" and full: "\<forall>b\<in>set (butlast bs). length b = N"
    and part: "\<forall>b\<in>set bs. b \<noteq> [] \<and> length b \<le> N"
  shows "length bs = (length (concat bs) + N - 1) div N"
    and "bs \<noteq> [] \<longrightarrow> length (last bs) =
           (if length (concat bs) mod N = 0 then N else length (concat bs) mod N)"
proof -
  show "length bs = (length (concat bs) + N - 1) div N"
  proof (cases "bs = []")
    case True
    then show ?thesis using N by simp
  next
    case False
    then have l: "last bs \<in> set bs" by simp
    with part have r: "0 < length (last bs)" "length (last bs) \<le> N" by auto
    from False have "length bs = Suc (length bs - 1)" by simp
    with chunk_total[OF False full] chunk_arith(1)[OF r, of "length bs - 1"]
    show ?thesis by simp
  qed
  show "bs \<noteq> [] \<longrightarrow> length (last bs) =
           (if length (concat bs) mod N = 0 then N else length (concat bs) mod N)"
  proof
    assume ne: "bs \<noteq> []"
    then have l: "last bs \<in> set bs" by simp
    with part have r: "0 < length (last bs)" "length (last bs) \<le> N" by auto
    have e: "length (concat bs) = (length bs - 1) * N + length (last bs)"
      by (rule chunk_total[OF ne full])
    show "length (last bs) =
           (if length (concat bs) mod N = 0 then N else length (concat bs) mod N)"
      by (simp only: e chunk_arith(2)[OF r])
  qed
qed

text \<open>
  C4. For every positive batch size \<open>n\<close> and every source whose rows all pass through the
  filter without an exception, on a store that accepts every write, the loader returns
  and the calls it makes are bulk writes only. With \<open>M\<close> the number of kept rows and \<open>N\<close>
  the batch size there are \<open>\<lceil>M / N\<rceil>\<close> of them, written \<open>(M + N - 1) div N\<close>; every call
  but the last carries \<open>N\<close> tuples; the last carries \<open>M mod N\<close>, or \<open>N\<close> when that is zero;
  and no call is made when no row is kept.
\<close>

theorem batch_boundaries:
  assumes "accepts_writes en"
    and "open_csv en name = Inr (map Inr rows)"
    and "\<forall>r\<in>set rows. filter_defined r"
    and "0 < n"
  shows "fst (process_and_insert_csv en name n w) = Inr PyNone
     \<and> (let bs = new_writes w (snd (process_and_insert_csv en name n w));
             M = length (filter kept rows); N = nat n
         in calls (snd (process_and_insert_csv en name n w)) =
              calls w @ map (ExecuteMany sql_insert) bs
          \<and> length bs = (M + N - 1) div N
          \<and> (\<forall>i < length bs - 1. length (bs ! i) = N)
          \<and> (bs \<noteq> [] \<longrightarrow> length (last bs) = (if M mod N = 0 then N else M mod N))
          \<and> (M = 0 \<longrightarrow> bs = []))"
proof -
  from loader_ok[OF assms(1,2,3), of n w]
  obtain bs w' where run: "process_and_insert_csv en name n w = (Inr PyNone, w')"
    and post: "loader_post n rows w bs w'" by blast
  have nw: "new_writes w w' = bs" using post by (rule new_writes_post)
  have c: "calls w' = calls w @ map (ExecuteMany sql_insert) bs"
    using post by (simp add: loader_post_def)
  have cat: "length (concat bs) = length (filter kept rows)"
    using post by (simp add: loader_post_def)
  have N: "0 < nat n" using assms(4) by simp
  have full: "\<forall>b\<in>set (butlast bs). length b = nat n"
    using post assms(4) unfolding loader_post_def by auto
  have part: "\<forall>b\<in>set bs. b \<noteq> [] \<and> length b \<le> nat n"
    using post assms(4) unfolding loader_post_def by auto
  have len: "length bs = (length (filter kept rows) + nat n - 1) div nat n"
    using chunk_count(1)[OF N full part] cat by simp
  have lst: "bs \<noteq> [] \<longrightarrow> length (last bs) =
      (if length (filter kept rows) mod nat n = 0 then nat n else length (filter kept rows) mod nat n)"
    using chunk_count(2)[OF N full part] cat by simp
  have idx: "\<forall>i < length bs - 1. length (bs ! i) = nat n"
  proof (intro allI impI)
    fix i assume i: "i < length bs - 1"
    then have "butlast bs ! i \<in> set (butlast bs)" by simp
    moreover have "butlast bs ! i = bs ! i" using i by (simp add: nth_butlast)
    ultimately show "length (bs ! i) = nat n" using full by auto
  qed
  have zero: "length (filter kept rows) = 0 \<longrightarrow> bs = []"
  proof
    assume "length (filter kept rows) = 0"
    with cat have "concat bs = []" by simp
    with part show "bs = []" by (cases bs) auto
  qed
  show ?thesis
    unfolding Let_def run fst_conv snd_conv nw
    using c len lst idx zero by blast
qed

text \<open>
  C10. For every batch size (positive or not), on a run that completes, the tuples of the
  bulk writes, concatenated in call order, are the tuples of the kept rows in source
  order: none is dropped, doubled or moved.
\<close>

theorem writes_are_kept_rows:
  assumes "accepts_writes en"
    and "open_csv en name = Inr (map Inr rows)"
    and "\<forall>r\<in>set rows. filter_defined r"
  shows "fst (process_and_insert_csv en name n w) = Inr PyNone
     \<and> concat (new_writes w (snd (process_and_insert_csv en name n w))) =
         map data_tuple_of (filter kept rows)"
proof -
  from loader_ok[OF assms, of n w]
  obtain bs w' where run: "process_and_insert_csv en name n w = (Inr PyNone, w')"
    and post: "loader_post n rows w bs w'" by blast
  have "new_writes w w' = bs" using post by (rule new_writes_post)
  moreover have "concat bs = map data_tuple_of (filter kept rows)"
    using post by (simp add: loader_post_def)
  ultimately show ?thesis using run by simp
qed

text \<open>
  C3, as amended. On a run that completes, the loader has counted every data row as
  processed and every kept row as inserted; it prints the two counters as the last two
  lines of its report and returns \<^verbatim>\<open>None\<close>.
\<close>

theorem counters_printed:
  assumes "accepts_writes en"
    and "open_csv en name = Inr (map Inr rows)"
    and "\<forall>r\<in>set rows. filter_defined r"
  shows "fst (process_and_insert_csv en name n w) = Inr PyNone
     \<and> (\<exists>ls. out (snd (process_and_insert_csv en name n w)) =
           out w @ ls @ [complete_msg, processed_msg (length rows),
                         inserted_msg (length (filter kept rows))])"
proof -
  from loader_ok[OF assms, of n w]
  obtain bs w' where run: "process_and_insert_csv en name n w = (Inr PyNone, w')"
    and post: "loader_post n rows w bs w'" by blast
  from post have "\<exists>ls. out w' = out w @ ls @ [complete_msg, processed_msg (length rows),
                         inserted_msg (length (filter kept rows))]"
    by (simp add: loader_post_def complete_msgs_def)
  with run show ?thesis by simp
qed

section \<open>What every run of the Batch Loader sends\<close>

text \<open>\<open>all_written P w\<close>: every tuple of every bulk write made so far satisfies \<open>P\<close>.
  The loader keeps this on every path, whether or not a call raises.\<close>

lemma write_calls_append: "write_calls (cs @ ds) = write_calls cs @ write_calls ds"
  by (induction cs rule: write_calls.induct) simp_all

lemma all_written_out [simp]: "all_written P (w\<lparr>out := x\<rparr>) = all_written P w"
  by (simp add: all_written_def)

lemma all_written_call:
  "all_written P (w\<lparr>calls := calls w @ [ExecuteMany s b]\<rparr>) = (all_written P w \<and> (\<forall>t\<in>set b. P t))"
  by (auto simp: all_written_def write_calls_append)

lemma db_call_cases:
  obtains "db_call en c w = (Inr (), w\<lparr>calls := calls w @ [c]\<rparr>)"
  | e where "db_call en c w = (Inl e, w\<lparr>calls := calls w @ [c]\<rparr>)"
  by (cases "raises en (calls w) c") (simp_all add: db_call_def)

lemma flush_step_written:
  assumes "\<forall>t\<in>set (batch l2). P t" "all_written P w"
  shows "all_written P (snd (bind (db_call en (ExecuteMany sql_insert (batch l2))) (\<lambda>_.
           bind (print (batch_msg l2)) (\<lambda>_. ret (l2\<lparr>batch := []\<rparr>))) w))
     \<and> (\<forall>l'. fst (bind (db_call en (ExecuteMany sql_insert (batch l2))) (\<lambda>_.
           bind (print (batch_msg l2)) (\<lambda>_. ret (l2\<lparr>batch := []\<rparr>))) w) = Inr l'
          \<longrightarrow> (\<forall>t\<in>set (batch l'). P t))"
proof (cases rule: db_call_cases[of en "ExecuteMany sql_insert (batch l2)" w])
  case 1
  then show ?thesis using assms
    by (simp add: bind_def print_def ret_def all_written_call)
next
  case (2 e)
  then show ?thesis using assms
    by (simp add: bind_def all_written_call)
qed

lemma loop_body_unfold:
  assumes "keeps r = Inr k"
  shows "loop_body en n r l w =
     (if n \<le> int (length (batch (appended r l)))
      then bind (db_call en (ExecuteMany sql_insert (batch (appended r l)))) (\<lambda>_.
           bind (print (batch_msg (appended r l))) (\<lambda>_. ret ((appended r l)\<lparr>batch := []\<rparr>))) w
      else ret (appended r l) w)"
proof (cases k)
  case True
  with assms have kr: "kept r" by (simp add: kept_def)
  show ?thesis using assms True unfolding appended_def
    by (simp add: loop_body_def bind_def Let_def kr db_call_def print_def ret_def
        split: option.split)
next
  case False
  with assms have kr: "\<not> kept r" by (simp add: kept_def)
  show ?thesis using assms False unfolding appended_def
    by (simp add: loop_body_def bind_def Let_def kr db_call_def print_def ret_def
        split: option.split)
qed

lemma loop_body_written:
  assumes "P (data_tuple_of r)" "\<forall>t\<in>set (batch l). P t" "all_written P w"
  shows "all_written P (snd (loop_body en n r l w))
     \<and> (\<forall>l'. fst (loop_body en n r l w) = Inr l' \<longrightarrow> (\<forall>t\<in>set (batch l'). P t))"
proof (cases "keeps r")
  case (Inl e)
  then show ?thesis using assms(3) by (simp add: loop_body_def bind_def Let_def)
next
  case (Inr k)
  have b2: "\<forall>t\<in>set (batch (appended r l)). P t" using assms(1,2) by (simp add: appended_def)
  show ?thesis
  proof (cases "n \<le> int (length (batch (appended r l)))")
    case True
    show ?thesis
      unfolding loop_body_unfold[OF Inr] if_P[OF True]
      by (rule flush_step_written[OF b2 assms(3)])
  next
    case False
    show ?thesis
      unfolding loop_body_unfold[OF Inr] if_not_P[OF False]
      using b2 assms(3) by (simp add: ret_def)
  qed
qed

lemma loop_written:
  assumes "\<forall>r. Inr r \<in> set items \<longrightarrow> P (data_tuple_of r)"
    "\<forall>t\<in>set (batch l). P t" "all_written P w"
  shows "all_written P (snd (loop en n items l w))
     \<and> (\<forall>l'. fst (loop en n items l w) = Inr l' \<longrightarrow> (\<forall>t\<in>set (batch l'). P t))"
  using assms
proof (induction items arbitrary: l w)
  case Nil
  then show ?case by simp
next
  case (Cons item items)
  show ?case
  proof (cases item)
    case (Inl e)
    then show ?thesis using Cons.prems(3) by simp
  next
    case (Inr r)
    with Cons.prems(1) have pr: "P (data_tuple_of r)" by simp
    from Cons.prems(1) have rest: "\<forall>r. Inr r \<in> set items \<longrightarrow> P (data_tuple_of r)" by simp
    obtain res w1 where s: "loop_body en n r l w = (res, w1)" by (cases "loop_body en n r l w")
    note lb = loop_body_written[OF pr Cons.prems(2,3), where en = en and n = n,
        unfolded s fst_conv snd_conv]
    from lb have w1: "all_written P w1" by (rule conjunct1)
    from lb have l1: "\<forall>l'. res = Inr l' \<longrightarrow> (\<forall>t\<in>set (batch l'). P t)"
      by (rule conjunct2)
    show ?thesis
    proof (cases res)
      case (Inl e)
      then show ?thesis using Inr s w1 by simp
    next
      case (Inr l')
      with l1 have b: "\<forall>t\<in>set (batch l'). P t" by simp
      from Cons.IH[OF rest b w1] show ?thesis using \<open>item = Inr r\<close> s Inr by simp
    qed
  qed
qed

lemma final_flush_written:
  assumes "\<forall>t\<in>set (batch l). P t" "all_written P w"
  shows "all_written P (snd (final_flush en l w))"
proof (cases "batch l = []")
  case True
  then show ?thesis using assms(2) by (simp add: final_flush_def ret_def)
next
  case False
  show ?thesis
  proof (cases "raises en (calls w) (ExecuteMany sql_insert (batch l))")
    case None
    then show ?thesis using False assms
      by (simp add: final_flush_def bind_def db_call_def print_def all_written_call)
  next
    case (Some e)
    then show ?thesis using False assms
      by (simp add: final_flush_def bind_def db_call_def print_def all_written_call)
  qed
qed

lemma loader_except_calls: "calls (snd (loader_except name e w)) = calls w"
  by (cases e) (simp_all add: loader_except_def bind_def print_def ret_def raise_def)

lemma all_written_cong: "calls w' = calls w \<Longrightarrow> all_written P w' = all_written P w"
  by (simp add: all_written_def)

lemma print_complete_calls:
  "calls (snd (bind (print a) (\<lambda>_. bind (print b) (\<lambda>_. bind (print c) (\<lambda>_. ret PyNone))) w)) = calls w"
  by (simp add: bind_def print_def ret_def)

lemma loader_try_unfold:
  assumes "open_csv en name = Inr items"
  shows "loader_try en name n w =
     (case loop en n items \<lparr>batch = [], total_processed = 0, total_inserted = 0\<rparr> w of
        (Inl e, w1) \<Rightarrow> (Inl e, w1)
      | (Inr l, w1) \<Rightarrow>
          (case final_flush en l w1 of
             (Inl e, w2) \<Rightarrow> (Inl e, w2)
           | (Inr u, w2) \<Rightarrow>
               (Inr PyNone,
                w2\<lparr>out := out w2 @ complete_msgs (total_processed l) (total_inserted l)\<rparr>)))"
  by (simp add: loader_try_def bind_def open_file_def assms print_def ret_def complete_msgs_def
      split: prod.split sum.split)

lemma loader_try_loop_raises:
  assumes op: "open_csv en name = Inr items"
    and s: "loop en n items \<lparr>batch = [], total_processed = 0, total_inserted = 0\<rparr> w = (Inl e, w1)"
  shows "loader_try en name n w = (Inl e, w1)"
  apply (subst loader_try_unfold[OF op])
  apply (subst s)
  apply (simp only: prod.case sum.case)
  done

lemma loader_try_flush_raises:
  assumes op: "open_csv en name = Inr items"
    and s: "loop en n items \<lparr>batch = [], total_processed = 0, total_inserted = 0\<rparr> w = (Inr l', w1)"
    and f: "final_flush en l' w1 = (Inl e, w2)"
  shows "loader_try en name n w = (Inl e, w2)"
  apply (subst loader_try_unfold[OF op])
  apply (subst s)
  apply (simp only: prod.case sum.case)
  apply (subst f)
  apply (simp only: prod.case sum.case)
  done

lemma loader_try_returns:
  assumes op: "open_csv en name = Inr items"
    and s: "loop en n items \<lparr>batch = [], total_processed = 0, total_inserted = 0\<rparr> w = (Inr l', w1)"
    and f: "final_flush en l' w1 = (Inr u, w2)"
  shows "loader_try en name n w =
     (Inr PyNone, w2\<lparr>out := out w2 @ complete_msgs (total_processed l') (total_inserted l')\<rparr>)"
  apply (subst loader_try_unfold[OF op])
  apply (subst s)
  apply (simp only: prod.case sum.case)
  apply (subst f)
  apply (simp only: prod.case sum.case)
  done

lemma loader_try_written:
  assumes "open_csv en name = Inr items"
    "\<forall>r. Inr r \<in> set items \<longrightarrow> P (data_tuple_of r)" "all_written P w"
  shows "all_written P (snd (loader_try en name n w))"
proof -
  let ?l0 = "\<lparr>batch = [], total_processed = 0, total_inserted = 0\<rparr>"
  have b0: "\<forall>t\<in>set (batch ?l0). P t" by simp
  note lw = loop_written[OF assms(2) b0 assms(3), where en = en and n = n]
  show ?thesis
  proof (cases "loop en n items ?l0 w")
    case (Pair res w1)
    from lw have w1: "all_written P w1" unfolding Pair snd_conv by (rule conjunct1)
    show ?thesis
    proof (cases res)
      case (Inl e)
      from loader_try_loop_raises[OF assms(1) Pair[unfolded Inl]] w1
      show ?thesis by simp
    next
      case (Inr l')
      from lw have b: "\<forall>t\<in>set (batch l'). P t" unfolding Pair Inr fst_conv by blast
      show ?thesis
      proof (cases "final_flush en l' w1")
        case (Pair r2 w2)
        from final_flush_written[OF b w1, where en = en]
        have w2: "all_written P w2" unfolding Pair snd_conv .
        show ?thesis
        proof (cases r2)
          case (Inl e)
          from loader_try_flush_raises[OF assms(1) \<open>loop en n items ?l0 w = (res, w1)\<close>[unfolded Inr]
              Pair[unfolded Inl]] w2
          show ?thesis by simp
        next
          case (Inr u)
          from loader_try_returns[OF assms(1) \<open>loop en n items ?l0 w = (res, w1)\<close>[unfolded \<open>res = Inr l'\<close>]
              Pair[unfolded Inr]] w2
          show ?thesis by simp
        qed
      qed
    qed
  qed
qed

lemma loader_written:
  assumes "open_csv en name = Inr items"
    "\<forall>r. Inr r \<in> set items \<longrightarrow> P (data_tuple_of r)" "all_written P w"
  shows "all_written P (snd (process_and_insert_csv en name n w))"
proof -
  let ?w0 = "w\<lparr>out := out w @ [start_msg name]\<rparr>"
  have a: "all_written P ?w0" using assms(3) by simp
  note lt = loader_try_written[OF assms(1,2) a, where n = n]
  have un: "process_and_insert_csv en name n w =
      (case loader_try en name n ?w0 of
         (Inl e, w') \<Rightarrow> loader_except name e w'
       | (Inr x, w') \<Rightarrow> (Inr x, w'))"
    by (simp add: process_and_insert_csv_def bind_def print_def try_except_def)
  show ?thesis
  proof (cases "loader_try en name n ?w0")
    case (Pair res w1)
    from lt have w1: "all_written P w1" unfolding Pair snd_conv .
    show ?thesis
    proof (cases res)
      case (Inl e)
      have "process_and_insert_csv en name n w = loader_except name e w1"
        apply (subst un)
        apply (subst Pair[unfolded Inl])
        apply (simp only: prod.case sum.case)
        done
      then have "calls (snd (process_and_insert_csv en name n w)) = calls w1"
        by (simp only: loader_except_calls)
      from all_written_cong[OF this] w1 show ?thesis by simp
    next
      case (Inr v)
      have "process_and_insert_csv en name n w = (Inr v, w1)"
        apply (subst un)
        apply (subst Pair[unfolded Inr])
        apply (simp only: prod.case sum.case)
        done
      with w1 show ?thesis by simp
    qed
  qed
qed

lemma not_header: "''Subscription date'' \<notin> set CSV_HEADERS"
  by (simp add: CSV_HEADERS_def)

lemma header_sub_date:
  assumes "dom r = set CSV_HEADERS"
  shows "t_subscription_date (data_tuple_of r) = None"
proof -
  have "''Subscription date'' \<notin> dom r" unfolding assms by (rule not_header)
  then have "r ''Subscription date'' = None" by (simp only: domIff not_not)
  then show ?thesis by (simp add: data_tuple_of_def sub_date_of_def row_get_def)
qed

text \<open>
  C9. A row of a source whose header has exactly the twelve labels of \<^verbatim>\<open>CSV_HEADERS\<close>
  has no key \<^verbatim>\<open>'Subscription date'\<close>, so the tuple built from it carries \<^verbatim>\<open>None\<close>
  in the \<^verbatim>\<open>subscription_date\<close> position, whatever its \<^verbatim>\<open>'Subscription Date'\<close> is. On
  every run of the loader over such a source, completed or not, and whatever the store
  answers, every tuple of every bulk write carries \<^verbatim>\<open>None\<close> there.
\<close>

theorem subscription_date_never_sent:
  "(\<forall>r. dom r = set CSV_HEADERS \<longrightarrow> t_subscription_date (data_tuple_of r) = None)
   \<and> (open_csv en name = Inr items
        \<and> (\<forall>r. Inr r \<in> set items \<longrightarrow> dom r = set CSV_HEADERS)
        \<and> write_calls (calls w) = []
      \<longrightarrow> (\<forall>b\<in>set (write_calls (calls (snd (process_and_insert_csv en name n w)))).
             \<forall>t\<in>set b. t_subscription_date t = None))"
proof (intro conjI impI allI)
  fix r :: row assume "dom r = set CSV_HEADERS"
  then show "t_subscription_date (data_tuple_of r) = None" by (rule header_sub_date)
next
  assume h: "open_csv en name = Inr items
        \<and> (\<forall>r. Inr r \<in> set items \<longrightarrow> dom r = set CSV_HEADERS)
        \<and> write_calls (calls w) = []"
  from h have op: "open_csv en name = Inr items" by (rule conjunct1)
  from h have hd: "\<forall>r. Inr r \<in> set items \<longrightarrow> dom r = set CSV_HEADERS"
    by (elim conjE)
  from h have nw: "write_calls (calls w) = []" by (elim conjE)
  have p: "\<forall>r. Inr r \<in> set items \<longrightarrow> t_subscription_date (data_tuple_of r) = None"
  proof (intro allI impI)
    fix r assume "Inr r \<in> set items"
    with hd have "dom r = set CSV_HEADERS" by blast
    then show "t_subscription_date (data_tuple_of r) = None" by (rule header_sub_date)
  qed
  have a: "all_written (\<lambda>t. t_subscription_date t = None) w"
    unfolding all_written_def nw by simp
  from loader_written[OF op p a, of n]
  show "\<forall>b\<in>set (write_calls (calls (snd (process_and_insert_csv en name n w)))).
             \<forall>t\<in>set b. t_subscription_date t = None"
    unfolding all_written_def .
qed

section \<open>A small source, and runs on it\<close>

lemma alice_keeps: "keeps alice_row = Inr True"
  by (simp add: keeps_def startswith_def first_name_of_def last_name_of_def row_get_default_def alice_row_def)

lemma bob_keeps: "keeps bob_row = Inr False"
  by (simp add: keeps_def startswith_def first_name_of_def last_name_of_def row_get_default_def bob_row_def)

lemma short_keeps: "keeps short_row = Inl (AttributeError ([CHR 0x27] @ ''NoneType'' @ [CHR 0x27] @ '' object has no attribute '' @
             [CHR 0x27] @ ''startswith'' @ [CHR 0x27]))"
  by (simp add: keeps_def startswith_def first_name_of_def last_name_of_def row_get_default_def short_row_def)

lemma quiet_accepts: "accepts_writes (quiet_store items)"
  by (simp add: accepts_writes_def quiet_store_def)

lemma quiet_open: "open_csv (quiet_store items) ''customers.csv'' = Inr items"
  by (simp add: quiet_store_def)

lemma map_two:
  assumes "length xs = 2"
  shows "map f xs = [f (xs ! 0), f (last xs)]"
proof -
  from assms obtain x ys where a: "xs = x # ys" by (cases xs) auto
  with assms obtain y zs where b: "ys = y # zs" by (cases ys) auto
  with a assms have "zs = []" by simp
  with a b show ?thesis by simp
qed

theorem batch_boundaries_witness:
  "accepts_writes (quiet_store (map Inr [alice_row, bob_row, alice_row, alice_row]))
   \<and> filter_defined alice_row \<and> filter_defined bob_row \<and> (0::int) < 2
   \<and> fst (process_and_insert_csv (quiet_store (map Inr [alice_row, bob_row, alice_row, alice_row]))
         ''customers.csv'' 2 fresh) = Inr PyNone
   \<and> map length (new_writes fresh (snd (process_and_insert_csv
         (quiet_store (map Inr [alice_row, bob_row, alice_row, alice_row])) ''customers.csv'' 2 fresh)))
      = [2, 1]"
proof -
  let ?rows = "[alice_row, bob_row, alice_row, alice_row]"
  let ?en = "quiet_store (map Inr ?rows)"
  define res where "res = process_and_insert_csv ?en ''customers.csv'' 2 fresh"
  define bs where "bs = new_writes fresh (snd res)"
  have fa: "filter_defined alice_row" by (simp add: filter_defined_def alice_keeps)
  have fb: "filter_defined bob_row" by (simp add: filter_defined_def bob_keeps)
  have fd: "\<forall>r\<in>set ?rows. filter_defined r" using fa fb by simp
  have M: "length (filter kept ?rows) = 3" by (simp add: kept_def alice_keeps bob_keeps)
  have pos: "(0::int) < 2" by simp
  note b = batch_boundaries[OF quiet_accepts quiet_open fd pos, of fresh,
      unfolded Let_def M, folded res_def, folded bs_def]
  from b have ok: "fst res = Inr PyNone" by (rule conjunct1)
  from b have len: "length bs = 2" by simp
  from b have l0: "length (bs ! 0) = 2" by simp
  from b len have l1: "length (last bs) = 1" by auto
  have m: "map length bs = [2, 1]"
    using map_two[OF len, of length] l0 l1 by simp
  show ?thesis
    unfolding res_def[symmetric] bs_def[symmetric]
    using quiet_accepts fa fb pos ok m by blast
qed

lemma example_run:
  "process_and_insert_csv (quiet_store [Inr alice_row, Inr bob_row]) ''customers.csv'' 1000 fresh =
     (Inr PyNone,
      \<lparr> calls = [ExecuteMany sql_insert [data_tuple_of alice_row]],
        out = [start_msg ''customers.csv'',
               final_batch_msg \<lparr>batch = [data_tuple_of alice_row], total_processed = 2, total_inserted = 1\<rparr>,
               complete_msg, processed_msg 2, inserted_msg 1] \<rparr>)"
  by (simp add: process_and_insert_csv_def loader_try_def bind_def print_def try_except_def
      open_file_def quiet_open loop_body_def Let_def alice_keeps bob_keeps final_flush_def
      db_call_def ret_def fresh_def quiet_store_def numeral_2_eq_2)

lemma short_run:
  "process_and_insert_csv (quiet_store [Inr short_row, Inr alice_row]) ''customers.csv'' 1000 fresh =
     (Inl (AttributeError ([CHR 0x27] @ ''NoneType'' @ [CHR 0x27] @ '' object has no attribute '' @
             [CHR 0x27] @ ''startswith'' @ [CHR 0x27])),
      \<lparr> calls = [],
        out = [start_msg ''customers.csv'',
               processing_error_msg (AttributeError ([CHR 0x27] @ ''NoneType'' @ [CHR 0x27] @ '' object has no attribute '' @
             [CHR 0x27] @ ''startswith'' @ [CHR 0x27]))] \<rparr>)"
  by (simp add: process_and_insert_csv_def loader_try_def bind_def print_def try_except_def
      open_file_def quiet_open loop_body_def Let_def short_keeps loader_except_def raise_def fresh_def)

lemma anna_keeps: "keeps anna_row = Inr True"
  by (simp add: keeps_def startswith_def first_name_of_def last_name_of_def row_get_default_def anna_row_def)

lemma amy_keeps: "keeps amy_row = Inr True"
  by (simp add: keeps_def startswith_def first_name_of_def last_name_of_def row_get_default_def amy_row_def)

lemma four_rows_calls:
  "calls (snd (process_and_insert_csv
      (quiet_store (map Inr [alice_row, bob_row, anna_row, amy_row])) ''customers.csv'' 2 fresh)) =
     [ExecuteMany sql_insert [data_tuple_of alice_row, data_tuple_of anna_row],
      ExecuteMany sql_insert [data_tuple_of amy_row]]"
  by (simp add: process_and_insert_csv_def loader_try_def bind_def print_def try_except_def
      open_file_def loop_body_def Let_def alice_keeps bob_keeps anna_keeps amy_keeps
      final_flush_def db_call_def ret_def fresh_def quiet_store_def)

lemma four_rows_ids:
  "map t_customer_id [data_tuple_of alice_row, data_tuple_of anna_row, data_tuple_of amy_row] =
     [Some ''1'', Some ''4'', Some ''5'']"
  by (simp add: data_tuple_of_def row_get_def alice_row_def anna_row_def amy_row_def)

text \<open>A source of four rows, three of them kept, at batch size 2: the loader makes two
  bulk writes, the first of the tuples of Alice Fox and Anna Fry, the second of the tuple
  of Amy Ford; concatenated they are the three kept rows in source order, and the three
  tuples differ in their customer ids.\<close>

theorem writes_are_kept_rows_witness:
  "accepts_writes (quiet_store (map Inr [alice_row, bob_row, anna_row, amy_row]))
   \<and> filter_defined alice_row \<and> filter_defined bob_row
   \<and> filter_defined anna_row \<and> filter_defined amy_row
   \<and> fst (process_and_insert_csv
         (quiet_store (map Inr [alice_row, bob_row, anna_row, amy_row])) ''customers.csv'' 2 fresh)
       = Inr PyNone
   \<and> new_writes fresh (snd (process_and_insert_csv
         (quiet_store (map Inr [alice_row, bob_row, anna_row, amy_row])) ''customers.csv'' 2 fresh))
       = [[data_tuple_of alice_row, data_tuple_of anna_row], [data_tuple_of amy_row]]
   \<and> concat (new_writes fresh (snd (process_and_insert_csv
         (quiet_store (map Inr [alice_row, bob_row, anna_row, amy_row])) ''customers.csv'' 2 fresh)))
       = [data_tuple_of alice_row, data_tuple_of anna_row, data_tuple_of amy_row]
   \<and> map t_customer_id [data_tuple_of alice_row, data_tuple_of anna_row, data_tuple_of amy_row]
       = [Some ''1'', Some ''4'', Some ''5'']"
proof -
  let ?rows = "[alice_row, bob_row, anna_row, amy_row]"
  define res where
    "res = process_and_insert_csv (quiet_store (map Inr ?rows)) ''customers.csv'' 2 fresh"
  have fa: "filter_defined alice_row" by (simp add: filter_defined_def alice_keeps)
  have fb: "filter_defined bob_row" by (simp add: filter_defined_def bob_keeps)
  have fc: "filter_defined anna_row" by (simp add: filter_defined_def anna_keeps)
  have fe: "filter_defined amy_row" by (simp add: filter_defined_def amy_keeps)
  have fd: "\<forall>r\<in>set ?rows. filter_defined r" using fa fb fc fe by simp
  have M: "filter kept ?rows = [alice_row, anna_row, amy_row]"
    by (simp add: kept_def alice_keeps bob_keeps anna_keeps amy_keeps)
  note b = writes_are_kept_rows[OF quiet_accepts quiet_open fd, of 2 fresh,
      unfolded M, folded res_def]
  from b have ok: "fst res = Inr PyNone" by (rule conjunct1)
  from b have c: "concat (new_writes fresh (snd res)) =
      [data_tuple_of alice_row, data_tuple_of anna_row, data_tuple_of amy_row]" by simp
  have w: "new_writes fresh (snd res) =
      [[data_tuple_of alice_row, data_tuple_of anna_row], [data_tuple_of amy_row]]"
    unfolding new_writes_def res_def four_rows_calls by (simp add: fresh_def)
  show ?thesis
    unfolding res_def[symmetric]
    using quiet_accepts fa fb fc fe ok w c four_rows_ids by blast
qed

theorem counters_printed_witness:
  "accepts_writes (quiet_store (map Inr [alice_row, bob_row]))
   \<and> filter_defined alice_row \<and> filter_defined bob_row
   \<and> fst (process_and_insert_csv (quiet_store (map Inr [alice_row, bob_row])) ''customers.csv'' 1000 fresh)
       = Inr PyNone
   \<and> (\<exists>ls. out (snd (process_and_insert_csv
         (quiet_store (map Inr [alice_row, bob_row])) ''customers.csv'' 1000 fresh))
      = ls @ [complete_msg, processed_msg 2, inserted_msg 1])"
proof -
  let ?rows = "[alice_row, bob_row]"
  define res where "res = process_and_insert_csv (quiet_store (map Inr ?rows)) ''customers.csv'' 1000 fresh"
  have fa: "filter_defined alice_row" by (simp add: filter_defined_def alice_keeps)
  have fb: "filter_defined bob_row" by (simp add: filter_defined_def bob_keeps)
  have fd: "\<forall>r\<in>set ?rows. filter_defined r" using fa fb by simp
  have M: "filter kept ?rows = [alice_row]" by (simp add: kept_def alice_keeps bob_keeps)
  note b = counters_printed[OF quiet_accepts quiet_open fd, of 1000 fresh,
      unfolded M, folded res_def]
  from b have ok: "fst res = Inr PyNone" by (rule conjunct1)
  from b have c: "\<exists>ls. out (snd res) = ls @ [complete_msg, processed_msg 2, inserted_msg 1]"
    by (simp add: fresh_def numeral_2_eq_2)
  show ?thesis
    unfolding res_def[symmetric]
    using quiet_accepts fa fb ok c by blast
qed

text \<open>C3 as stated fails: on the example the loader has processed 2 rows and inserted 1,
  and what it returns is \<^verbatim>\<open>None\<close>, not the pair of the counters.\<close>

theorem counters_not_returned:
  "fst (process_and_insert_csv (quiet_store [Inr alice_row, Inr bob_row]) ''customers.csv'' 1000 fresh)
     = Inr PyNone
   \<and> fst (process_and_insert_csv (quiet_store [Inr alice_row, Inr bob_row]) ''customers.csv'' 1000 fresh)
     \<noteq> Inr (PyTuple [PyInt 2, PyInt 1])"
  by (simp add: example_run)

lemma dom_alice: "dom alice_row = set CSV_HEADERS"
  by (simp add: alice_row_def CSV_HEADERS_def dom_map_of_conv_image_fst)

lemma dom_bob: "dom bob_row = set CSV_HEADERS"
  by (simp add: bob_row_def CSV_HEADERS_def dom_map_of_conv_image_fst)

lemma alice_date: "row_get alice_row ''Subscription Date'' = Some ''2020-01-01''"
  by (simp add: row_get_def alice_row_def)

lemma example_writes:
  "write_calls (calls (snd (process_and_insert_csv (quiet_store [Inr alice_row, Inr bob_row])
      ''customers.csv'' 1000 fresh))) = [[data_tuple_of alice_row]]"
  by (simp add: example_run)

theorem subscription_date_never_sent_witness:
  "dom alice_row = set CSV_HEADERS \<and> dom bob_row = set CSV_HEADERS
   \<and> row_get alice_row ''Subscription Date'' = Some ''2020-01-01''
   \<and> open_csv (quiet_store [Inr alice_row, Inr bob_row]) ''customers.csv'' = Inr [Inr alice_row, Inr bob_row]
   \<and> write_calls (calls fresh) = []
   \<and> write_calls (calls (snd (process_and_insert_csv (quiet_store [Inr alice_row, Inr bob_row])
        ''customers.csv'' 1000 fresh))) = [[data_tuple_of alice_row]]
   \<and> t_subscription_date (data_tuple_of alice_row) = None"
proof -
  let ?items = "[Inr alice_row, Inr bob_row] :: (exn + row) list"
  have hd: "\<forall>r. Inr r \<in> set ?items \<longrightarrow> dom r = set CSV_HEADERS"
    using dom_alice dom_bob by simp
  have nw: "write_calls (calls fresh) = []" by (simp add: fresh_def)
  note t = subscription_date_never_sent[of "quiet_store ?items" "''customers.csv''" ?items fresh 1000]
  from t have "\<forall>b\<in>set (write_calls (calls (snd (process_and_insert_csv (quiet_store ?items)
        ''customers.csv'' 1000 fresh)))). \<forall>t\<in>set b. t_subscription_date t = None"
    using quiet_open[of ?items] hd nw by blast
  then have d: "t_subscription_date (data_tuple_of alice_row) = None"
    unfolding example_writes by simp
  show ?thesis
    using dom_alice dom_bob alice_date quiet_open[of ?items] nw example_writes d by blast
qed

lemma alice_stored:
  "executemany date_in [data_tuple_of alice_row] \<lparr>customers = [], id_seq = 1\<rparr> =
     Inr \<lparr>customers =
            [\<lparr>serial_id = 1, customer_id = ''1'', first_name = Some ''Alice'',
              last_name = Some ''Fox'', company = Some ''Acme'', city = Some ''Oslo'',
              country = Some ''Norway'', phone_1 = Some ''555-1'', phone_2 = Some ''555-2'',
              email = Some ''alice@acme.example'', subscription_date = None,
              website = Some ''acme.example''\<rparr>],
          id_seq = 2\<rparr>"
  by (simp add: insert_one_def proposed_def then_ok_def varchar_def to_date_def not_null_def
      data_tuple_of_def row_get_def first_name_of_def last_name_of_def row_get_default_def
      sub_date_of_def alice_row_def)

text \<open>
  C2 fails on the code. The row of Alice Fox has \<^verbatim>\<open>Subscription Date\<close> 2020-01-01 and is
  kept, yet the tuple sent for it carries \<^verbatim>\<open>None\<close> as its date: the loader reads the key
  \<^verbatim>\<open>'Subscription date'\<close>, which the row does not have. The store then holds customer 1
  with a \<^verbatim>\<open>NULL\<close> date, however the server reads dates.
\<close>

theorem alice_date_dropped:
  "row_get alice_row ''Subscription Date'' = Some ''2020-01-01''
   \<and> kept alice_row
   \<and> t_subscription_date (data_tuple_of alice_row) = None
   \<and> write_calls (calls (snd (process_and_insert_csv (quiet_store [Inr alice_row, Inr bob_row])
        ''customers.csv'' 1000 fresh))) = [[data_tuple_of alice_row]]
   \<and> (\<forall>date_in. \<exists>tb.
         executemany date_in [data_tuple_of alice_row] \<lparr>customers = [], id_seq = 1\<rparr> = Inr tb
         \<and> map customer_id (customers tb) = [''1'']
         \<and> map subscription_date (customers tb) = [None])"
proof -
  have d: "t_subscription_date (data_tuple_of alice_row) = None"
    by (rule header_sub_date[OF dom_alice])
  have k: "kept alice_row" by (simp add: kept_def alice_keeps)
  have st: "\<forall>date_in. \<exists>tb.
         executemany date_in [data_tuple_of alice_row] \<lparr>customers = [], id_seq = 1\<rparr> = Inr tb
         \<and> map customer_id (customers tb) = [''1'']
         \<and> map subscription_date (customers tb) = [None]"
    unfolding alice_stored by simp
  show ?thesis using alice_date k d example_writes st by blast
qed

text \<open>
  C1 fails on the code for a row whose First Name is missing as a value: the cell is
  \<^verbatim>\<open>None\<close>, the default of \<^verbatim>\<open>row.get\<close> does not apply, and \<^verbatim>\<open>startswith\<close> raises. The
  loader prints the error and raises it again; the row of Alice Fox that follows is never
  read, although it satisfies the filter, and nothing is sent to the store.
\<close>

theorem short_row_raises:
  "row_get_default short_row ''First Name'' [] = None
   \<and> kept alice_row
   \<and> process_and_insert_csv (quiet_store [Inr short_row, Inr alice_row]) ''customers.csv'' 1000 fresh =
     (Inl (AttributeError ([CHR 0x27] @ ''NoneType'' @ [CHR 0x27] @ '' object has no attribute '' @
             [CHR 0x27] @ ''startswith'' @ [CHR 0x27])),
      \<lparr> calls = [],
        out = [start_msg ''customers.csv'',
               processing_error_msg (AttributeError ([CHR 0x27] @ ''NoneType'' @ [CHR 0x27] @
                 '' object has no attribute '' @ [CHR 0x27] @ ''startswith'' @ [CHR 0x27]))] \<rparr>)"
proof -
  have a: "row_get_default short_row ''First Name'' [] = None"
    by (simp add: row_get_default_def short_row_def)
  have k: "kept alice_row" by (simp add: kept_def alice_keeps)
  show ?thesis using a k short_run by blast
qed

section \<open>Runs of the whole script\<close>

lemma bind_returns: "m w = (Inr x, w') \<Longrightarrow> bind m f w = f x w'"
  by (simp add: bind_def)

lemma bind_raises: "m w = (Inl e, w') \<Longrightarrow> bind m f w = (Inl e, w')"
  by (simp add: bind_def)

lemma db_call_quiet:
  "never_raises en \<Longrightarrow> db_call en c w = (Inr (), w\<lparr>calls := calls w @ [c]\<rparr>)"
  by (simp add: never_raises_def db_call_def)

lemma never_raises_accepts: "never_raises en \<Longrightarrow> accepts_writes en"
  by (simp add: never_raises_def accepts_writes_def)

lemma setup_quiet:
  assumes "never_raises en"
  shows "setup_database en w =
     (Inr PyNone, w\<lparr>calls := calls w @ [Execute create_table_sql, Commit],
                   out := out w @ [setup_ok_msg]\<rparr>)"
  by (simp add: setup_database_def try_except_def bind_def db_call_quiet[OF assms] print_def ret_def)

lemma print_rows_eq: "print_rows rs w = (Inr (), w\<lparr>out := out w @ map format_row rs\<rparr>)"
  by (induction rs arbitrary: w) simp_all

lemma report_quiet:
  assumes "raises en (calls w) (Execute sql_query) = None"
    and "raises en (calls w @ [Execute sql_query]) Fetchall = None"
  shows "get_filtered_customers en w =
     (Inr PyNone,
      w\<lparr>calls := calls w @ [Execute sql_query, Fetchall],
        out := out w @ query_header_msg # report_lines (fetched en (calls w @ [Execute sql_query]))\<rparr>)"
  using assms
  by (simp add: get_filtered_customers_def try_except_def bind_def db_call_def fetchall_def
      print_def ret_def print_rows_eq report_lines_def)

lemma main_steps_quiet:
  assumes q: "never_raises en"
    and op: "open_csv en CSV_FILE_TO_PROCESS = Inr (map Inr rows)"
    and fd: "\<forall>r\<in>set rows. filter_defined r"
  shows "\<exists>bs w'. main_steps en w = (Inr (), w')
     \<and> calls w' = calls w @ [Execute create_table_sql, Commit] @
          map (ExecuteMany sql_insert) bs @ [Commit, Execute sql_query, Fetchall]
     \<and> concat bs = map data_tuple_of (filter kept rows)"
proof -
  let ?w1 = "w\<lparr>out := out w @ [connected_msg]\<rparr>"
  let ?w2 = "?w1\<lparr>calls := calls ?w1 @ [Execute create_table_sql, Commit],
                   out := out ?w1 @ [setup_ok_msg]\<rparr>"
  from loader_ok[OF never_raises_accepts[OF q] op fd, of 1000 ?w2]
  obtain bs w3 where l: "process_and_insert_csv en CSV_FILE_TO_PROCESS 1000 ?w2 = (Inr PyNone, w3)"
    and p: "loader_post 1000 rows ?w2 bs w3" by blast
  let ?w4 = "w3\<lparr>calls := calls w3 @ [Commit]\<rparr>"
  let ?w5 = "?w4\<lparr>out := out ?w4 @ [committed_msg]\<rparr>"
  have rq: "raises en (calls ?w5) (Execute sql_query) = None"
    "raises en (calls ?w5 @ [Execute sql_query]) Fetchall = None"
    using q by (simp_all add: never_raises_def)
  note r = report_quiet[OF rq]
  let ?w6 = "?w5\<lparr>calls := calls ?w5 @ [Execute sql_query, Fetchall],
        out := out ?w5 @ query_header_msg # report_lines (fetched en (calls ?w5 @ [Execute sql_query]))\<rparr>"
  have run: "main_steps en w = (Inr (), ?w6)"
    unfolding main_steps_def
    apply (subst bind_returns[of _ _ "()" ?w1])
     apply (simp add: print_def)
    apply (subst bind_returns[where m = "setup_database en", OF setup_quiet[OF q]])
    apply (subst bind_returns[where m = "process_and_insert_csv en CSV_FILE_TO_PROCESS 1000", OF l])
    apply (subst bind_returns[where m = "db_call en Commit", OF db_call_quiet[OF q]])
    apply (subst bind_returns[of _ _ "()" ?w5])
     apply (simp add: print_def)
    apply (subst bind_returns[where m = "get_filtered_customers en", OF r])
    apply (simp add: ret_def)
    done
  have c3: "calls w3 = calls w @ [Execute create_table_sql, Commit] @ map (ExecuteMany sql_insert) bs"
    using p by (simp add: loader_post_def)
  have c6: "calls ?w6 = calls w @ [Execute create_table_sql, Commit] @
          map (ExecuteMany sql_insert) bs @ [Commit, Execute sql_query, Fetchall]"
    using c3 by simp
  have cat: "concat bs = map data_tuple_of (filter kept rows)"
    using p by (simp add: loader_post_def)
  from run c6 cat show ?thesis by blast
qed

text \<open>
  C6, as amended. On every run in which no call raises and the source opens and is read
  without an exception, the script returns normally and its calls on the connection are,
  in this order: the connection, the table creation and a first commit made by the Schema
  Initializer itself; the bulk writes of the Batch Loader, with no commit between them;
  one commit after the last of them; the query, the fetch and the close. So there are two
  commits, and the table creation is committed before the loader starts.
\<close>

theorem two_commits:
  assumes "never_raises en"
    and "open_csv en CSV_FILE_TO_PROCESS = Inr (map Inr rows)"
    and "\<forall>r\<in>set rows. filter_defined r"
  shows "fst (main en w) = Inr ()
     \<and> (\<exists>bs. calls (snd (main en w)) =
           calls w @ [Connect, Execute create_table_sql, Commit] @
           map (ExecuteMany sql_insert) bs @ [Commit, Execute sql_query, Fetchall, Close]
         \<and> concat bs = map data_tuple_of (filter kept rows))"
proof -
  let ?w1 = "w\<lparr>calls := calls w @ [Connect]\<rparr>"
  from main_steps_quiet[OF assms, of ?w1]
  obtain bs w2 where s: "main_steps en ?w1 = (Inr (), w2)"
    and c: "calls w2 = calls ?w1 @ [Execute create_table_sql, Commit] @
          map (ExecuteMany sql_insert) bs @ [Commit, Execute sql_query, Fetchall]"
    and cat: "concat bs = map data_tuple_of (filter kept rows)" by blast
  have run: "main en w = (Inr (), w2\<lparr>calls := calls w2 @ [Close], out := out w2 @ [closed_msg]\<rparr>)"
    by (simp add: main_def db_call_quiet[OF assms(1)] try_finally_def try_except_def s
        main_finally_def bind_def print_def)
  have "calls (snd (main en w)) =
           calls w @ [Connect, Execute create_table_sql, Commit] @
           map (ExecuteMany sql_insert) bs @ [Commit, Execute sql_query, Fetchall, Close]"
    using run c by simp
  with run cat show ?thesis by auto
qed

lemma quiet_never_raises: "never_raises (quiet_store items)"
  by (simp add: never_raises_def quiet_store_def)

lemma quiet_open_main: "open_csv (quiet_store items) CSV_FILE_TO_PROCESS = Inr items"
  by (simp add: quiet_store_def CSV_FILE_TO_PROCESS_def)

lemma main_example:
  "fst (main (quiet_store [Inr alice_row, Inr bob_row]) fresh) = Inr ()
   \<and> calls (snd (main (quiet_store [Inr alice_row, Inr bob_row]) fresh)) =
      [Connect, Execute create_table_sql, Commit,
       ExecuteMany sql_insert [data_tuple_of alice_row],
       Commit, Execute sql_query, Fetchall, Close]"
  by (simp add: main_def try_finally_def try_except_def main_steps_def bind_def print_def
      db_call_def setup_database_def ret_def process_and_insert_csv_def loader_try_def
      open_file_def loop_body_def Let_def alice_keeps bob_keeps final_flush_def
      get_filtered_customers_def fetchall_def main_finally_def quiet_store_def
      CSV_FILE_TO_PROCESS_def fresh_def)

text \<open>C6 as stated fails: on the example the run commits twice, and the first commit
  follows the table creation, before any row is read.\<close>

theorem schema_committed_first:
  "fst (main (quiet_store [Inr alice_row, Inr bob_row]) fresh) = Inr ()
   \<and> count_list (calls (snd (main (quiet_store [Inr alice_row, Inr bob_row]) fresh))) Commit = 2
   \<and> take 3 (calls (snd (main (quiet_store [Inr alice_row, Inr bob_row]) fresh))) =
       [Connect, Execute create_table_sql, Commit]"
  by (simp add: main_example)

theorem two_commits_witness:
  "never_raises (quiet_store (map Inr [alice_row, bob_row]))
   \<and> filter_defined alice_row \<and> filter_defined bob_row
   \<and> fst (main (quiet_store (map Inr [alice_row, bob_row])) fresh) = Inr ()
   \<and> (\<exists>bs. calls (snd (main (quiet_store (map Inr [alice_row, bob_row])) fresh)) =
           [Connect, Execute create_table_sql, Commit] @
           map (ExecuteMany sql_insert) bs @ [Commit, Execute sql_query, Fetchall, Close]
         \<and> concat bs = [data_tuple_of alice_row])"
proof -
  let ?rows = "[alice_row, bob_row]"
  define res where "res = main (quiet_store (map Inr ?rows)) fresh"
  have fa: "filter_defined alice_row" by (simp add: filter_defined_def alice_keeps)
  have fb: "filter_defined bob_row" by (simp add: filter_defined_def bob_keeps)
  have fd: "\<forall>r\<in>set ?rows. filter_defined r" using fa fb by simp
  have M: "filter kept ?rows = [alice_row]" by (simp add: kept_def alice_keeps bob_keeps)
  have c0: "calls fresh = []" by (simp add: fresh_def)
  note t = two_commits[OF quiet_never_raises quiet_open_main fd, of fresh,
      unfolded M c0 append_Nil, folded res_def]
  from t have ok: "fst res = Inr ()" by (rule conjunct1)
  from t have ex: "\<exists>bs. calls (snd res) =
           [Connect, Execute create_table_sql, Commit] @
           map (ExecuteMany sql_insert) bs @ [Commit, Execute sql_query, Fetchall, Close]
         \<and> concat bs = [data_tuple_of alice_row]" by simp
  show ?thesis
    unfolding res_def[symmetric]
    using quiet_never_raises fa fb ok ex by blast
qed

text \<open>
  C7 fails on the code when the failure of a write is an \<^verbatim>\<open>OperationalError\<close>, as a lost
  connection is: the loader raises it again, but the first \<^verbatim>\<open>except\<close> clause of the main
  block takes it, prints the connection message and does not call \<^verbatim>\<open>rollback\<close>; the
  connection is closed with the write uncommitted. For another exception of the store, here
  an \<^verbatim>\<open>IntegrityError\<close>, the second clause rolls back before the close.
\<close>

theorem lost_connection_not_rolled_back:
  "main (failing_store (OperationalError ''server closed the connection unexpectedly'')
           [Inr alice_row, Inr bob_row]) fresh =
     (Inr (),
      \<lparr> calls = [Connect, Execute create_table_sql, Commit,
                 ExecuteMany sql_insert [data_tuple_of alice_row], Close],
        out = [connected_msg, setup_ok_msg, start_msg ''customers.csv'',
               processing_error_msg (OperationalError ''server closed the connection unexpectedly''),
               critical_msg,
               details_msg (OperationalError ''server closed the connection unexpectedly''),
               closed_msg] \<rparr>)
   \<and> calls (snd (main (failing_store (IntegrityError ''duplicate key'')
           [Inr alice_row, Inr bob_row]) fresh)) =
       [Connect, Execute create_table_sql, Commit,
        ExecuteMany sql_insert [data_tuple_of alice_row], Rollback, Close]"
  by (simp add: main_def try_finally_def try_except_def main_steps_def bind_def print_def
      db_call_def setup_database_def ret_def raise_def process_and_insert_csv_def loader_try_def
      loader_except_def main_except_def
      open_file_def loop_body_def Let_def alice_keeps bob_keeps final_flush_def
      main_finally_def failing_store_def
      CSV_FILE_TO_PROCESS_def fresh_def)

text \<open>A missing file is reported and the loader returns: nothing is raised.\<close>

lemma loader_missing_file:
  assumes "open_csv en name = Inl (FileNotFoundError m)"
  shows "process_and_insert_csv en name n w =
     (Inr PyNone, w\<lparr>out := out w @ [start_msg name, not_found_msg name]\<rparr>)"
  by (simp add: process_and_insert_csv_def loader_try_def bind_def print_def try_except_def
      open_file_def assms loader_except_def ret_def)

section \<open>The query of the Report Reader\<close>

lemma date_le_total: "date_le a b \<or> date_le b a"
  by (cases a; cases b) auto

lemma date_le_trans: "date_le a b \<Longrightarrow> date_le b c \<Longrightarrow> date_le a c"
  by (cases a; cases b; cases c) auto

lemma may_precede_total: "may_precede a b \<or> may_precede b a"
  using date_le_total by (auto simp: may_precede_def split: option.splits)

lemma may_precede_trans: "may_precede a b \<Longrightarrow> may_precede b c \<Longrightarrow> may_precede a c"
  using date_le_trans by (auto simp: may_precede_def split: option.splits)

lemma set_insert_desc: "set (insert_desc r rs) = insert r (set rs)"
  by (induction rs) auto

lemma mset_insert_desc: "mset (insert_desc r rs) = add_mset r (mset rs)"
  by (induction rs) auto

lemma in_order_insert: "in_order rs \<Longrightarrow> in_order (insert_desc r rs)"
proof (induction rs)
  case Nil
  then show ?case by (simp add: in_order_def)
next
  case (Cons x xs)
  show ?case
  proof (cases "may_precede (subscription_date r) (subscription_date x)")
    case True
    have "\<forall>y\<in>set xs. may_precede (subscription_date r) (subscription_date y)"
      using Cons.prems True may_precede_trans by (auto simp: in_order_def)
    then show ?thesis using Cons.prems True by (simp add: in_order_def)
  next
    case False
    with may_precede_total have xr: "may_precede (subscription_date x) (subscription_date r)"
      by blast
    from Cons.prems have xs: "in_order xs" by (simp add: in_order_def)
    from Cons.IH[OF xs] have "in_order (insert_desc r xs)" .
    then show ?thesis using Cons.prems False xr
      by (auto simp: in_order_def set_insert_desc)
  qed
qed

lemma in_order_order_by: "in_order (order_by_desc rs)"
  by (induction rs) (simp_all add: in_order_def[of "[]"] in_order_insert)

lemma mset_order_by: "mset (order_by_desc rs) = mset rs"
  by (induction rs) (simp_all add: mset_insert_desc)

lemma select_mset:
  "mset (select_customers tb) = mset (map select_list (filter where_clause tb))"
  by (simp add: select_customers_def mset_order_by)

lemma select_sorted:
  "sorted_wrt (\<lambda>a b. may_precede (snd (snd (snd a))) (snd (snd (snd b)))) (select_customers tb)"
proof -
  have "sorted_wrt (\<lambda>a b. may_precede (subscription_date a) (subscription_date b))
          (order_by_desc (filter where_clause tb))"
    using in_order_order_by by (simp add: in_order_def)
  then show ?thesis
    by (simp add: select_customers_def sorted_wrt_map select_list_def)
qed

lemma select_empty: "(select_customers tb = []) = (filter where_clause tb = [])"
proof -
  have "(select_customers tb = []) = (mset (select_customers tb) = {#})" by simp
  also have "\<dots> = (mset (filter where_clause tb) = {#})" unfolding select_mset by simp
  also have "\<dots> = (filter where_clause tb = [])" by (simp only: mset_zero_iff)
  finally show ?thesis .
qed

lemma take_one_iff: "(take (Suc 0) s = [c]) = (\<exists>t. s = c # t)"
  by (cases s) simp_all

lemma like_prefix_char: "like_prefix [c] v = (\<exists>s. v = Some (c # s))"
  by (cases v) (simp_all add: like_prefix_def take_one_iff)

lemma where_clause_iff:
  "where_clause r = (\<exists>f l. first_name r = Some (CHR ''A'' # f) \<and> last_name r = Some (CHR ''F'' # l))"
  by (auto simp: where_clause_def like_prefix_char)

lemma report_never_raises: "fst (get_filtered_customers en w) = Inr PyNone"
proof (cases "raises en (calls w) (Execute sql_query)")
  case (Some e)
  then show ?thesis
    by (simp add: get_filtered_customers_def try_except_def bind_def db_call_def print_def ret_def)
next
  case None
  show ?thesis
  proof (cases "raises en (calls w @ [Execute sql_query]) Fetchall")
    case (Some e)
    then show ?thesis using None
      by (simp add: get_filtered_customers_def try_except_def bind_def db_call_def fetchall_def
          print_def ret_def)
  next
    case N2: None
    show ?thesis unfolding report_quiet[OF None N2] by simp
  qed
qed

lemma report_query_fails:
  assumes "raises en (calls w) (Execute sql_query) = Some e"
  shows "out (snd (get_filtered_customers en w)) = out w @ [query_header_msg, query_error_msg e]"
  using assms
  by (simp add: get_filtered_customers_def try_except_def bind_def db_call_def print_def ret_def)

lemma report_fetch_fails:
  assumes "raises en (calls w) (Execute sql_query) = None"
    and "raises en (calls w @ [Execute sql_query]) Fetchall = Some e"
  shows "out (snd (get_filtered_customers en w)) = out w @ [query_header_msg, query_error_msg e]"
  using assms
  by (simp add: get_filtered_customers_def try_except_def bind_def db_call_def fetchall_def
      print_def ret_def)

text \<open>
  C8. The Report Reader never raises: it returns \<^verbatim>\<open>None\<close> whatever the store does. When
  the query and the fetch succeed and the store answers with the rows of \<^verbatim>\<open>sql_query\<close> over
  its table \<open>tb\<close>, the reader prints its heading and then one line per row, or the single
  line of \<open>no_match_msg\<close> when no row matches. When the query or the fetch raises, it
  prints the heading and the error. The query yields the four selected columns of exactly
  the rows that match (as a multiset), in descending order of the date, and a row matches
  when its first name starts with A and its last name with F. For a row without
  \<^verbatim>\<open>NULL\<close>s the line is \<^verbatim>\<open>Name: first last, Company: company, Subscribed: date\<close>.
\<close>

theorem report_reader:
  "fst (get_filtered_customers en w) = Inr PyNone
   \<and> (raises en (calls w) (Execute sql_query) = None
        \<and> raises en (calls w @ [Execute sql_query]) Fetchall = None
        \<and> fetched en (calls w @ [Execute sql_query]) = select_customers tb
      \<longrightarrow> out (snd (get_filtered_customers en w)) =
            out w @ query_header_msg #
              (if filter where_clause tb = [] then [no_match_msg]
               else map format_row (select_customers tb)))
   \<and> (raises en (calls w) (Execute sql_query) = Some e
        \<or> raises en (calls w) (Execute sql_query) = None
           \<and> raises en (calls w @ [Execute sql_query]) Fetchall = Some e
      \<longrightarrow> out (snd (get_filtered_customers en w)) =
            out w @ [query_header_msg, query_error_msg e])
   \<and> mset (select_customers tb) = mset (map select_list (filter where_clause tb))
   \<and> sorted_wrt (\<lambda>a b. may_precede (snd (snd (snd a))) (snd (snd (snd b)))) (select_customers tb)
   \<and> where_clause r =
        (\<exists>f l. first_name r = Some (CHR ''A'' # f) \<and> last_name r = Some (CHR ''F'' # l))
   \<and> may_precede (Some d1) (Some d2) = date_le d2 d1
   \<and> format_row (Some f0, Some l0, Some c0, Some d0) =
        ''Name: '' @ f0 @ '' '' @ l0 @ '', Company: '' @ c0 @ '', Subscribed: '' @ str_date d0"
proof (intro conjI impI)
  show "fst (get_filtered_customers en w) = Inr PyNone" by (rule report_never_raises)
next
  assume h: "raises en (calls w) (Execute sql_query) = None
        \<and> raises en (calls w @ [Execute sql_query]) Fetchall = None
        \<and> fetched en (calls w @ [Execute sql_query]) = select_customers tb"
  from h have a: "raises en (calls w) (Execute sql_query) = None" by (rule conjunct1)
  from h have b: "raises en (calls w @ [Execute sql_query]) Fetchall = None" by (elim conjE)
  from h have c: "fetched en (calls w @ [Execute sql_query]) = select_customers tb" by (elim conjE)
  show "out (snd (get_filtered_customers en w)) =
            out w @ query_header_msg #
              (if filter where_clause tb = [] then [no_match_msg]
               else map format_row (select_customers tb))"
    unfolding report_quiet[OF a b] c by (simp add: report_lines_def select_empty)
next
  assume "raises en (calls w) (Execute sql_query) = Some e
        \<or> raises en (calls w) (Execute sql_query) = None
           \<and> raises en (calls w @ [Execute sql_query]) Fetchall = Some e"
  then show "out (snd (get_filtered_customers en w)) =
            out w @ [query_header_msg, query_error_msg e]"
    using report_query_fails report_fetch_fails by blast
next
  show "mset (select_customers tb) = mset (map select_list (filter where_clause tb))"
    by (rule select_mset)
next
  show "sorted_wrt (\<lambda>a b. may_precede (snd (snd (snd a))) (snd (snd (snd b)))) (select_customers tb)"
    by (rule select_sorted)
next
  show "where_clause r =
        (\<exists>f l. first_name r = Some (CHR ''A'' # f) \<and> last_name r = Some (CHR ''F'' # l))"
    by (rule where_clause_iff)
next
  show "may_precede (Some d1) (Some d2) = date_le d2 d1" by (simp add: may_precede_def)
next
  show "format_row (Some f0, Some l0, Some c0, Some d0) =
        ''Name: '' @ f0 @ '' '' @ l0 @ '', Company: '' @ c0 @ '', Subscribed: '' @ str_date d0"
    by (simp add: str_cell_def str_date_option_def)
qed

section \<open>The upsert of the Batch Loader\<close>

lemma do_update_key [simp]: "customer_id (do_update c r) = customer_id r"
  by (simp add: do_update_def)

lemma do_update_serial [simp]: "serial_id (do_update c r) = serial_id r"
  by (simp add: do_update_def)

lemma do_update_twice [simp]: "do_update c (do_update c' r) = do_update c r"
  by (simp add: do_update_def)

lemma do_update_self [simp]: "do_update c c = c"
  by (simp add: do_update_def)

lemma do_update_ignores_serial [simp]: "do_update (c\<lparr>serial_id := m\<rparr>) r = do_update c r"
  by (simp add: do_update_def)







lemma serials_upd [simp]: "map serial_id (upd c rs) = map serial_id rs"
  by (induction rs) (simp_all add: upd_def)









lemma final_for_key: "final_for cs k = Some c \<Longrightarrow> customer_id c = k"
  by (induction cs) (auto split: option.splits if_splits)










section \<open>A small table, a report on it and a load into it\<close>

lemma example_select:
  "select_customers [stored_alice, stored_bob, stored_abe] =
     [(Some ''Abe'', Some ''Fry'', None, None),
      (Some ''Alice'', Some ''Fox'', Some ''Acme'', Some (Date 2020 1 1))]"
  by (simp add: select_customers_def where_clause_def like_prefix_def stored_alice_def
      stored_bob_def stored_abe_def may_precede_def select_list_def)

lemma example_lines:
  "map format_row [(Some ''Abe'', Some ''Fry'', None, None),
      (Some ''Alice'', Some ''Fox'', Some ''Acme'', Some (Date 2020 1 1))] =
     [''Name: Abe Fry, Company: None, Subscribed: None'',
      ''Name: Alice Fox, Company: Acme, Subscribed: 2020-01-01'']"
  by (simp add: str_cell_def str_date_option_def zero_pad_def str_nat.simps)

theorem report_reader_witness:
  "raises (report_store [stored_alice, stored_bob, stored_abe]) (calls fresh) (Execute sql_query) = None
   \<and> raises (report_store [stored_alice, stored_bob, stored_abe])
         (calls fresh @ [Execute sql_query]) Fetchall = None
   \<and> fetched (report_store [stored_alice, stored_bob, stored_abe]) (calls fresh @ [Execute sql_query])
       = select_customers [stored_alice, stored_bob, stored_abe]
   \<and> fst (get_filtered_customers (report_store [stored_alice, stored_bob, stored_abe]) fresh)
       = Inr PyNone
   \<and> out (snd (get_filtered_customers (report_store [stored_alice, stored_bob, stored_abe]) fresh)) =
       [query_header_msg,
        ''Name: Abe Fry, Company: None, Subscribed: None'',
        ''Name: Alice Fox, Company: Acme, Subscribed: 2020-01-01'']"
proof -
  let ?tb = "[stored_alice, stored_bob, stored_abe]"
  define res where "res = get_filtered_customers (report_store ?tb) fresh"
  have a: "raises (report_store ?tb) (calls fresh) (Execute sql_query) = None"
    by (simp add: report_store_def)
  have b: "raises (report_store ?tb) (calls fresh @ [Execute sql_query]) Fetchall = None"
    by (simp add: report_store_def)
  have c: "fetched (report_store ?tb) (calls fresh @ [Execute sql_query]) = select_customers ?tb"
    by (simp add: report_store_def)
  have ne: "filter where_clause ?tb \<noteq> []"
    by (simp add: where_clause_def like_prefix_def stored_alice_def)
  note t = report_reader[of "report_store ?tb" fresh ?tb, folded res_def]
  from t have ok: "fst res = Inr PyNone" by (rule conjunct1)
  from t a b c have "out (snd res) = out fresh @ query_header_msg #
      (if filter where_clause ?tb = [] then [no_match_msg]
       else map format_row (select_customers ?tb))" by blast
  then have o: "out (snd res) = [query_header_msg,
        ''Name: Abe Fry, Company: None, Subscribed: None'',
        ''Name: Alice Fox, Company: Acme, Subscribed: 2020-01-01'']"
    unfolding if_not_P[OF ne] example_select example_lines by (simp add: fresh_def)
  show ?thesis
    unfolding res_def[symmetric]
    using a b c ok o by blast
qed






section \<open>What the filter keeps\<close>

text \<open>What the filter keeps, read off its definition: a row is kept exactly when its two
  name cells are strings that start with A and with F; a row without the key
  \<^verbatim>\<open>First Name\<close> is read as having the empty first name, and is not kept.\<close>

lemma startswith_char: "(startswith v [c] = Inr True) = (\<exists>s. v = Some (c # s))"
  by (cases v) (simp_all add: startswith_def take_one_iff)

lemma kept_iff:
  "kept r = (\<exists>f l. first_name_of r = Some (CHR ''A'' # f) \<and> last_name_of r = Some (CHR ''F'' # l))"
proof (cases "startswith (first_name_of r) ''A''")
  case (Inl e)
  then have "\<not> kept r" by (simp add: kept_def keeps_def)
  moreover from Inl have "first_name_of r = None"
    by (cases "first_name_of r") (simp_all add: startswith_def)
  ultimately show ?thesis by simp
next
  case (Inr b)
  show ?thesis
  proof (cases b)
    case True
    with Inr have a: "\<exists>f. first_name_of r = Some (CHR ''A'' # f)"
      by (simp add: startswith_char)
    from Inr True have "kept r = (startswith (last_name_of r) ''F'' = Inr True)"
      by (simp add: kept_def keeps_def)
    with a show ?thesis by (auto simp: startswith_char)
  next
    case False
    with Inr have "\<not> kept r" by (simp add: kept_def keeps_def)
    moreover from Inr False have "\<not> (\<exists>f. first_name_of r = Some (CHR ''A'' # f))"
      using startswith_char[of "first_name_of r" "CHR ''A''"] by simp
    ultimately show ?thesis by blast
  qed
qed

lemma missing_column_not_kept:
  assumes "r ''First Name'' = None"
  shows "first_name_of r = Some [] \<and> filter_defined r \<and> \<not> kept r"
  using assms
  by (simp add: first_name_of_def row_get_default_def filter_defined_def kept_def keeps_def
      startswith_def)

end
